theory Spec2Isabelle
  imports Complex_Main "HOL-Library.Countable" "HOL-Library.Log_Nat"
begin

section \<open>Conventions\<close>

text \<open>
  Python \<open>str\<close> values are modelled as \<open>string\<close> (lists of \<open>char\<close>), one \<open>char\<close> per
  code point, so the texts covered are those whose code points lie below 256. Python
  \<open>float\<close> values are IEEE 754 doubles, the type \<open>pyfloat\<close> below, and their arithmetic
  rounds. Python \<open>int\<close> is \<open>int\<close> or \<open>nat\<close>; the conversion \<open>int(s)\<close> of a string is
  partial, as the interpreter limits the number of digits it accepts. A \<open>dict\<close> read
  from the configuration is a map; a \<open>dict\<close> built by a literal is an association list
  in the literal's order. A call that can raise returns an \<open>option\<close> or a sum.
\<close>

subsection \<open>Python helpers\<close>

definition dict_get :: "('k \<rightharpoonup> 'v) \<Rightarrow> 'k \<Rightarrow> 'v \<Rightarrow> 'v" where
  \<comment> \<open>\<open>d.get(k, dflt)\<close>\<close>
  "dict_get d k dflt = (case d k of Some v \<Rightarrow> v | None \<Rightarrow> dflt)"

definition alist_get :: "('k \<times> 'v) list \<Rightarrow> 'k \<Rightarrow> 'v \<Rightarrow> 'v" where
  \<comment> \<open>\<open>d.get(k, dflt)\<close> on a dict built by a literal\<close>
  "alist_get d k dflt = (case map_of d k of Some v \<Rightarrow> v | None \<Rightarrow> dflt)"

definition py_slice_from :: "'a list \<Rightarrow> int \<Rightarrow> 'a list" where
  \<comment> \<open>\<open>xs[i:]\<close>: a negative \<open>i\<close> counts from the end, and the start is clamped to the list\<close>
  "py_slice_from xs i =
     (if i < 0 then drop (nat (int (length xs) + i)) xs else drop (nat i) xs)"

definition py_isspace :: "char \<Rightarrow> bool" where
  \<comment> \<open>\<open>str.isspace\<close> on one code point below 256\<close>
  "py_isspace c =
     (let n = (of_char c :: nat)
      in (9 \<le> n \<and> n \<le> 13) \<or> (28 \<le> n \<and> n \<le> 32) \<or> n = 133 \<or> n = 160)"

definition py_strip :: "string \<Rightarrow> string" where
  \<comment> \<open>\<open>s.strip()\<close>\<close>
  "py_strip s = rev (dropWhile py_isspace (rev (dropWhile py_isspace s)))"

subsection \<open>Python floats\<close>

text \<open>
  A \<open>float\<close> is a double: a finite value (a rational of the form \<open>n * 2^e\<close> with
  \<open>\<bar>n\<bar> < 2^53\<close> and \<open>- 1074 \<le> e \<le> 971\<close>), an infinity or a NaN. The two zeros are
  one value here; the code below adds, divides and compares, and none of the three tells
  them apart. \<open>round_double\<close> is the rounding of IEEE 754 arithmetic, to the nearest
  double with ties to the even mantissa: the spacing of the doubles around \<open>x\<close> is
  \<open>2^(e - 52)\<close> for \<open>2^e \<le> \<bar>x\<bar> < 2^(e + 1)\<close>, and \<open>2^(- 1074)\<close> below \<open>2^(- 1022)\<close>; a
  result of magnitude \<open>2^1024\<close> or more is an infinity.
\<close>

datatype pyfloat = Finite rat | PosInf | NegInf | NaN

definition pow2 :: "int \<Rightarrow> rat" where
  "pow2 e = (if 0 \<le> e then 2 ^ nat e else 1 / 2 ^ nat (- e))"

definition floor_log2 :: "rat \<Rightarrow> int" where
  \<comment> \<open>the \<open>e\<close> with \<open>2^e \<le> x < 2^(e + 1)\<close>, for \<open>0 < x\<close>\<close>
  "floor_log2 x =
     (let (p, q) = quotient_of x; d = bitlen p - bitlen q
      in if pow2 d \<le> x then d else d - 1)"

definition round_half_even :: "rat \<Rightarrow> int" where
  "round_half_even x =
     (let f = \<lfloor>x\<rfloor>; r = x - of_int f
      in if r < 1 / 2 then f else if 1 / 2 < r then f + 1 else if even f then f else f + 1)"

definition round_double :: "rat \<Rightarrow> pyfloat" where
  "round_double x =
     (if x = 0 then Finite 0
      else
        let e = max (floor_log2 \<bar>x\<bar>) (- 1022);
            n = round_half_even (x / pow2 (e - 52))
        in if 1023 < e \<or> (e = 1023 \<and> 2 ^ 53 \<le> \<bar>n\<bar>)
           then (if 0 < x then PosInf else NegInf)
           else Finite (of_int n * pow2 (e - 52)))"

definition py_float :: "rat \<Rightarrow> pyfloat" where
  \<comment> \<open>the value of a decimal literal such as \<open>0.70\<close>: the double nearest to it\<close>
  "py_float q = round_double q"

fun fadd :: "pyfloat \<Rightarrow> pyfloat \<Rightarrow> pyfloat" where
  \<comment> \<open>\<open>a + b\<close>\<close>
  "fadd (Finite a) (Finite b) = round_double (a + b)"
| "fadd NaN b = NaN"
| "fadd a NaN = NaN"
| "fadd PosInf NegInf = NaN"
| "fadd NegInf PosInf = NaN"
| "fadd PosInf b = PosInf"
| "fadd NegInf b = NegInf"
| "fadd a PosInf = PosInf"
| "fadd a NegInf = NegInf"

fun fdiv_len :: "pyfloat \<Rightarrow> nat \<Rightarrow> pyfloat" where
  \<comment> \<open>\<open>a / n\<close> for a list length \<open>n \<ge> 1\<close>; a length is below \<open>2^53\<close>, so its conversion
      to \<open>float\<close> is exact\<close>
  "fdiv_len (Finite a) n = round_double (a / of_nat n)"
| "fdiv_len a n = a"

fun fge :: "pyfloat \<Rightarrow> pyfloat \<Rightarrow> bool" where
  \<comment> \<open>\<open>a >= b\<close>\<close>
  "fge NaN b = False"
| "fge a NaN = False"
| "fge (Finite a) (Finite b) = (b \<le> a)"
| "fge PosInf b = True"
| "fge a NegInf = True"
| "fge a PosInf = False"
| "fge NegInf b = False"

fun flt :: "pyfloat \<Rightarrow> pyfloat \<Rightarrow> bool" where
  \<comment> \<open>\<open>a < b\<close>\<close>
  "flt NaN b = False"
| "flt a NaN = False"
| "flt (Finite a) (Finite b) = (a < b)"
| "flt PosInf b = False"
| "flt a NegInf = False"
| "flt a PosInf = True"
| "flt NegInf b = True"

definition py_sum :: "pyfloat list \<Rightarrow> pyfloat" where
  \<comment> \<open>\<open>sum(xs)\<close>: the additions are made from left to right, starting from 0, and each
      one rounds (CPython 3.12 adds a correction of the rounding errors at the end; the
      sums of the examples below are the same with it)\<close>
  "py_sum xs = foldl fadd (Finite 0) xs"

section \<open>learning\_model.py\<close>

text \<open>
  \<open>ScoreReport\<close>. The field \<open>breakdown\<close> holds the scorer's details and is left out;
  of \<open>code_eval\<close> the model keeps what the callers read: whether there is one, and its
  \<open>ok\<close> flag.
\<close>

record score_report =
  text_of :: string
  predicted_intent :: string
  expected_intent :: "string option"
  requested_action :: string
  required_unlock :: string
  allowed :: bool
  total_score :: pyfloat
  unlocks :: "(string \<times> bool) list"
  unlocks_before :: "(string \<times> bool) list"
  code_eval :: "bool option"

text \<open>
  What the scorer computes for one submission: the intent that \<open>_predict_intent\<close> reads
  from the tokens of the text, the total score (the intent score combined with the score
  of the code), and the \<open>ok\<close> flag of \<open>CodeEvaluator.evaluate\<close>. The scorer reads the
  submission and the configuration and no progress state.
\<close>

record scoring =
  sc_predicted_intent :: string
  sc_total_score :: pyfloat
  sc_code_ok :: bool

text \<open>
  \<open>LearningModel\<close>: the configuration that gating reads (\<open>thresholds\<close>, the two maps of
  \<open>capability_gating\<close>, \<open>window_size\<close>) and the running progress (\<open>recent_scores\<close>,
  \<open>current_percent\<close>, \<open>unlocked\<close>).
\<close>

record learning_model =
  thresholds :: "string \<rightharpoonup> pyfloat"
  gating_actions :: "string \<rightharpoonup> string"
  gating_intent_default_action :: "string \<rightharpoonup> string"
  window_size :: int
  recent_scores :: "pyfloat list"
  current_percent :: pyfloat
  unlocked :: "(string \<times> bool) list"

definition model_init ::
  "(string \<rightharpoonup> pyfloat) \<Rightarrow> (string \<rightharpoonup> string) \<Rightarrow> (string \<rightharpoonup> string) \<Rightarrow> int \<Rightarrow> learning_model" where
  \<comment> \<open>\<open>LearningModel.__init__\<close>; the last argument is
      \<open>int(standards.get("moving_window_size", 50))\<close>\<close>
  "model_init th acts dflts w =
     \<lparr> thresholds = th, gating_actions = acts, gating_intent_default_action = dflts,
       window_size = w, recent_scores = [], current_percent = Finite 0,
       unlocked = [(''assist_mode'', False), (''minor_edits'', False),
                   (''refactor_lint'', False), (''autonomous_editing'', False)] \<rparr>"

definition update_config ::
  "learning_model \<Rightarrow> (string \<rightharpoonup> pyfloat) \<Rightarrow> (string \<rightharpoonup> string) \<Rightarrow> (string \<rightharpoonup> string) \<Rightarrow> int
     \<Rightarrow> learning_model" where
  "update_config m th acts dflts w =
     m\<lparr> thresholds := th, gating_actions := acts, gating_intent_default_action := dflts,
        window_size := w \<rparr>"

definition compute_unlocks :: "learning_model \<Rightarrow> pyfloat \<Rightarrow> (string \<times> bool) list" where
  \<comment> \<open>the defaults are the literals \<open>0.50\<close>, \<open>0.70\<close>, \<open>0.90\<close> and \<open>1.00\<close>\<close>
  "compute_unlocks m percent =
     [(''assist_mode'',
         fge percent (dict_get (thresholds m) ''assist_mode'' (py_float (1 / 2)))),
      (''minor_edits'',
         fge percent (dict_get (thresholds m) ''minor_edits'' (py_float (7 / 10)))),
      (''refactor_lint'',
         fge percent (dict_get (thresholds m) ''refactor_lint'' (py_float (9 / 10)))),
      (''autonomous_editing'',
         fge percent (dict_get (thresholds m) ''autonomous_editing'' (py_float 1)))]"

definition resolve_required_unlock ::
  "learning_model \<Rightarrow> string \<Rightarrow> string option \<Rightarrow> string \<times> string" where
  "resolve_required_unlock m pred req_action =
     (let actions_map = gating_actions m;
          defaults = gating_intent_default_action m;
          stripped = py_strip (case req_action of None \<Rightarrow> [] | Some a \<Rightarrow> a);
          action0 = (if stripped \<noteq> [] then stripped
                     else dict_get defaults pred (dict_get defaults ''unknown'' ''assist''));
          action = (if actions_map action0 = None then ''assist'' else action0);
          required = dict_get actions_map action ''assist_mode''
      in (action, required))"

definition is_allowed :: "learning_model \<Rightarrow> string \<Rightarrow> bool" where
  "is_allowed m required = alist_get (unlocked m) required False"

definition mean_scores :: "pyfloat list \<Rightarrow> pyfloat" where
  \<comment> \<open>\<open>sum(xs) / max(1, len(xs))\<close>, in float arithmetic\<close>
  "mean_scores xs = fdiv_len (py_sum xs) (max 1 (length xs))"

text \<open>
  \<open>LearningModel.evaluate\<close>, with the scorer's results as the argument \<open>sc\<close>. The
  method is written as a state transformer: it returns the report together with the
  model it leaves behind.
\<close>

definition evaluate ::
  "learning_model \<Rightarrow> string \<Rightarrow> string option \<Rightarrow> string option \<Rightarrow> string option \<Rightarrow> scoring
     \<Rightarrow> score_report \<times> learning_model" where
  "evaluate m tx expected code req_action sc =
     (let pred = sc_predicted_intent sc;
          (action, required) = resolve_required_unlock m pred req_action;
          before_scores = py_slice_from (recent_scores m) (- window_size m);
          percent_before = (if before_scores \<noteq> [] then mean_scores before_scores else Finite 0);
          ub = compute_unlocks m percent_before;
          allowed_now = alist_get ub required False;
          ce = (case code of
                  None \<Rightarrow> None
                | Some c \<Rightarrow> if py_strip c \<noteq> [] then Some (sc_code_ok sc) else None);
          score = sc_total_score sc;
          tmp_scores = py_slice_from (recent_scores m @ [score]) (- window_size m);
          percent = mean_scores tmp_scores;
          ul = compute_unlocks m percent
      in (\<lparr> text_of = tx, predicted_intent = pred, expected_intent = expected,
            requested_action = action, required_unlock = required, allowed = allowed_now,
            total_score = score, unlocks = ul, unlocks_before = ub, code_eval = ce \<rparr>, m))"

definition update_progress :: "learning_model \<Rightarrow> score_report \<Rightarrow> learning_model" where
  "update_progress m report =
     (let appended = recent_scores m @ [total_score report];
          kept = (if int (length appended) > window_size m
                  then py_slice_from appended (- window_size m) else appended);
          cur = mean_scores kept
      in m\<lparr> recent_scores := kept, current_percent := cur,
             unlocked := compute_unlocks m cur \<rparr>)"

text \<open>
  The proficiency that gating reads: the mean of the scores recorded so far, cut to the
  window, and 0.0 when there are none. The score of the submission being evaluated is not
  among them.
\<close>

definition history_percent :: "learning_model \<Rightarrow> pyfloat" where
  "history_percent m =
     (let before_scores = py_slice_from (recent_scores m) (- window_size m)
      in if before_scores \<noteq> [] then mean_scores before_scores else Finite 0)"

definition fixed_tiers :: "string list" where
  "fixed_tiers = [''assist_mode'', ''minor_edits'', ''refactor_lint'', ''autonomous_editing'']"

definition tier_threshold :: "learning_model \<Rightarrow> string \<Rightarrow> pyfloat option" where
  \<comment> \<open>the threshold \<open>_compute_unlocks\<close> reads for a tier; none for a name outside the four\<close>
  "tier_threshold m tier =
     (if tier = ''assist_mode''
        then Some (dict_get (thresholds m) ''assist_mode'' (py_float (1 / 2)))
      else if tier = ''minor_edits''
        then Some (dict_get (thresholds m) ''minor_edits'' (py_float (7 / 10)))
      else if tier = ''refactor_lint''
        then Some (dict_get (thresholds m) ''refactor_lint'' (py_float (9 / 10)))
      else if tier = ''autonomous_editing''
        then Some (dict_get (thresholds m) ''autonomous_editing'' (py_float 1))
      else None)"

text \<open>The models that the constructor and the public methods can produce.\<close>

inductive reachable :: "learning_model \<Rightarrow> bool" where
  r_init: "reachable (model_init th acts dflts w)"
| r_config: "reachable m \<Longrightarrow> reachable (update_config m th acts dflts w)"
| r_evaluate: "reachable m \<Longrightarrow> reachable (snd (evaluate m tx ex code ra sc))"
| r_progress: "reachable m \<Longrightarrow> reachable (update_progress m report)"

text \<open>
  A concrete configuration for the examples: one threshold set (\<open>assist_mode\<close> at 0.5,
  the others at their defaults), two actions of fixed tiers, an action of a tier outside
  the four, and a window of two scores.
\<close>

definition demo_model :: learning_model where
  "demo_model = model_init [''assist_mode'' \<mapsto> py_float (1 / 2)]
      [''assist'' \<mapsto> ''assist_mode'', ''minor_edit'' \<mapsto> ''minor_edits'',
       ''deploy'' \<mapsto> ''root_mode''] Map.empty 2"

definition demo_report :: "pyfloat \<Rightarrow> score_report" where
  "demo_report s = \<lparr> text_of = ''t'', predicted_intent = ''unknown'', expected_intent = None,
       requested_action = ''assist'', required_unlock = ''assist_mode'', allowed = False,
       total_score = s, unlocks = [], unlocks_before = [], code_eval = None \<rparr>"

definition demo_scoring :: "pyfloat \<Rightarrow> scoring" where
  "demo_scoring s = \<lparr> sc_predicted_intent = ''unknown'', sc_total_score = s, sc_code_ok = True \<rparr>"

definition three_sevens :: learning_model where
  \<comment> \<open>the defaults of the window and of the threshold of \<open>minor_edits\<close>, after three
      scores of 0.7\<close>
  "three_sevens =
     foldl update_progress (demo_model\<lparr>window_size := 50\<rparr>)
       [demo_report (py_float (7 / 10)), demo_report (py_float (7 / 10)),
        demo_report (py_float (7 / 10))]"

section \<open>editor\_engine.py\<close>

definition LF :: char where "LF = CHR 0x0A"
definition CR :: char where "CR = CHR 0x0D"

definition is_linebreak :: "char \<Rightarrow> bool" where
  \<comment> \<open>the line boundaries of \<open>str.splitlines\<close> below code point 256\<close>
  "is_linebreak c =
     (let n = (of_char c :: nat)
      in (10 \<le> n \<and> n \<le> 13) \<or> (28 \<le> n \<and> n \<le> 30) \<or> n = 133)"

function py_splitlines :: "bool \<Rightarrow> string \<Rightarrow> string list" where
  "py_splitlines keepends s =
     (if s = [] then []
      else
        let line = takeWhile (\<lambda>c. \<not> is_linebreak c) s;
            rest = dropWhile (\<lambda>c. \<not> is_linebreak c) s
        in case rest of
             [] \<Rightarrow> [line]
           | c # r \<Rightarrow>
               (case r of
                  d # r' \<Rightarrow>
                    if c = CR \<and> d = LF
                    then (line @ (if keepends then [c, d] else [])) # py_splitlines keepends r'
                    else (line @ (if keepends then [c] else [])) # py_splitlines keepends r
                | [] \<Rightarrow> [line @ (if keepends then [c] else [])]))"
  by pat_completeness auto
termination
proof (relation "measure (\<lambda>(k, s). length s)", goal_cases)
  case 1
  show ?case by simp
next
  case (2 keepends s line rest c r d r')
  then have "dropWhile (\<lambda>c. \<not> is_linebreak c) s = c # d # r'" by simp
  then have "length (c # d # r') \<le> length s"
    using length_dropWhile_le [of "\<lambda>c. \<not> is_linebreak c" s] by simp
  then show ?case by simp
next
  case (3 keepends s line rest c r d r')
  then have "dropWhile (\<lambda>c. \<not> is_linebreak c) s = c # r" by simp
  then have "length (c # r) \<le> length s"
    using length_dropWhile_le [of "\<lambda>c. \<not> is_linebreak c" s] by simp
  then show ?case by simp
qed

declare py_splitlines.simps [simp del]

definition starts_with :: "string \<Rightarrow> string \<Rightarrow> bool" where
  \<comment> \<open>\<open>s.startswith(p)\<close>\<close>
  "starts_with p s = (take (length p) s = p)"

definition py_join :: "string \<Rightarrow> string list \<Rightarrow> string" where
  \<comment> \<open>\<open>sep.join(xs)\<close>\<close>
  "py_join sep xs = (case xs of [] \<Rightarrow> [] | x # r \<Rightarrow> x @ concat (map (\<lambda>y. sep @ y) r))"

definition is_digit :: "char \<Rightarrow> bool" where
  "is_digit c = (let n = (of_char c :: nat) in 48 \<le> n \<and> n \<le> 57)"

definition int_of_digits :: "string \<Rightarrow> nat" where
  \<comment> \<open>the number that a string of decimal digits denotes\<close>
  "int_of_digits s = foldl (\<lambda>acc c. 10 * acc + (of_char c - 48)) 0 s"

text \<open>
  \<open>int(s)\<close> for a non-empty string of decimal digits. The interpreter refuses a string
  of more digits than \<open>sys.get_int_max_str_digits()\<close> (leading zeros are counted) and
  raises \<open>ValueError\<close>; the limit is 4300 unless it is configured, and 0 switches the
  check off. The limit is the first argument, and \<open>None\<close> is the exception.
\<close>

definition py_int :: "nat \<Rightarrow> string \<Rightarrow> nat option" where
  "py_int max_digits s =
     (if 0 < max_digits \<and> max_digits < length s then None else Some (int_of_digits s))"

type_synonym difflib = "string list \<Rightarrow> string list \<Rightarrow> string \<Rightarrow> string \<Rightarrow> string list"

datatype patch_error =
    InvalidHunkHeader string
  | OverlappingHunks
  | MalformedEmptyLine
  | ContextMismatch string "string option"
  | RemovalMismatch string "string option"
  | UnknownPrefix char string
  | OldCountMismatch nat nat
  | NewCountMismatch nat nat

record patch_result =
  ok :: bool
  diff :: string
  new_text :: "string option"
  error :: "patch_error option"

definition generate_unified_diff :: "difflib \<Rightarrow> string \<Rightarrow> string \<Rightarrow> string" where
  "generate_unified_diff unified_diff old_text new_txt =
     (let old_lines = py_splitlines True old_text;
          new_lines = py_splitlines True new_txt;
          diff_lines = unified_diff old_lines new_lines ''a/code.py'' ''b/code.py''
      in if diff_lines = [] then [] else py_join [LF] diff_lines @ [LF])"

definition opt_count :: "string \<Rightarrow> (string option \<times> string)" where
  \<comment> \<open>the optional group \<open>(?:,(\d+))?\<close>: the digits after a comma, and the rest\<close>
  "opt_count s =
     (case s of
        c # r \<Rightarrow>
          if c = CHR '','' \<and> takeWhile is_digit r \<noteq> []
          then (Some (takeWhile is_digit r), dropWhile is_digit r)
          else (None, s)
      | [] \<Rightarrow> (None, s))"

definition hunk_re_match :: "string \<Rightarrow> (string \<times> string option \<times> string \<times> string option) option" where
  \<comment> \<open>\<open>hunk_re.match(line)\<close>: the four groups of
      \<open>^@@ -(\d+)(?:,(\d+))? \+(\d+)(?:,(\d+))? @@\<close>\<close>
  "hunk_re_match line =
     (if \<not> starts_with ''@@ -'' line then None
      else
        let r1 = drop 4 line;
            g1 = takeWhile is_digit r1;
            (g2, r2) = opt_count (dropWhile is_digit r1)
        in if g1 = [] \<or> \<not> starts_with '' +'' r2 then None
           else
             let r3 = drop 2 r2;
                 g3 = takeWhile is_digit r3;
                 (g4, r4) = opt_count (dropWhile is_digit r3)
             in if g3 = [] \<or> \<not> starts_with '' @@'' r4 then None
                else Some (g1, g2, g3, g4))"

definition no_newline_marker :: string where
  "no_newline_marker = CHR 0x5C # '' No newline at end of file''"

text \<open>
  The inner loop over the lines of one hunk. It stops at the end of the diff or at the
  next line that starts with \<open>@@ \<close>, and returns the lines left, the position in the old
  text, the output so far and the two counters.
\<close>

fun hunk_body ::
  "string list \<Rightarrow> string list \<Rightarrow> nat \<Rightarrow> string list \<Rightarrow> nat \<Rightarrow> nat
     \<Rightarrow> patch_error + (string list \<times> nat \<times> string list \<times> nat \<times> nat)" where
  "hunk_body old_lines [] old_pos out consumed_old produced_new =
     Inr ([], old_pos, out, consumed_old, produced_new)"
| "hunk_body old_lines (line # rest) old_pos out consumed_old produced_new =
     (if starts_with ''@@ '' line
      then Inr (line # rest, old_pos, out, consumed_old, produced_new)
      else if starts_with no_newline_marker line
      then hunk_body old_lines rest old_pos out consumed_old produced_new
      else if line = [] then Inl MalformedEmptyLine
      else
        let prefix = hd line; content = tl line @ [LF]
        in if prefix = CHR '' '' then
             (if old_pos \<ge> length old_lines \<or> old_lines ! old_pos \<noteq> content
              then Inl (ContextMismatch content
                     (if old_pos < length old_lines then Some (old_lines ! old_pos) else None))
              else hunk_body old_lines rest (old_pos + 1) (out @ [content])
                     (consumed_old + 1) (produced_new + 1))
           else if prefix = CHR ''-'' then
             (if old_pos \<ge> length old_lines \<or> old_lines ! old_pos \<noteq> content
              then Inl (RemovalMismatch content
                     (if old_pos < length old_lines then Some (old_lines ! old_pos) else None))
              else hunk_body old_lines rest (old_pos + 1) out (consumed_old + 1) produced_new)
           else if prefix = CHR ''+'' then
             hunk_body old_lines rest old_pos (out @ [content]) consumed_old (produced_new + 1)
           else Inl (UnknownPrefix prefix line))"

lemma hunk_body_rest_length:
  "hunk_body old_lines ls old_pos out c p = Inr (rest, x) \<Longrightarrow> length rest \<le> length ls"
  by (induction ls arbitrary: old_pos out c p)
     (auto simp add: Let_def le_SucI split: if_splits)

text \<open>
  The four conversions of a hunk header, lines 64 to 67: \<open>old_start\<close>, \<open>old_count\<close>,
  \<open>new_start\<close> and \<open>new_count\<close>, or \<open>None\<close> when one of them raises.
\<close>

definition header_numbers ::
  "nat \<Rightarrow> string \<times> string option \<times> string \<times> string option \<Rightarrow> (nat \<times> nat \<times> nat \<times> nat) option" where
  "header_numbers max_digits g =
     (case g of (g1, g2, g3, g4) \<Rightarrow>
        (case py_int max_digits g1 of
           None \<Rightarrow> None
         | Some old_start \<Rightarrow>
        (case py_int max_digits (case g2 of None \<Rightarrow> ''1'' | Some d \<Rightarrow> d) of
           None \<Rightarrow> None
         | Some old_count \<Rightarrow>
        (case py_int max_digits g3 of
           None \<Rightarrow> None
         | Some new_start \<Rightarrow>
        (case py_int max_digits (case g4 of None \<Rightarrow> ''1'' | Some d \<Rightarrow> d) of
           None \<Rightarrow> None
         | Some new_count \<Rightarrow> Some (old_start, old_count, new_start, new_count))))))"

text \<open>
  The outer loop: one round per hunk header. The result is \<open>None\<close> when a conversion
  of a header raises \<open>ValueError\<close>: the conversions are in no \<open>try\<close> block, and the
  exception leaves \<open>apply_unified_diff\<close>. Otherwise it is the error of the \<open>PatchResult\<close>
  returned from inside the loop, or the lines of the new text.
\<close>

function apply_hunks ::
  "nat \<Rightarrow> string list \<Rightarrow> string list \<Rightarrow> nat \<Rightarrow> string list
     \<Rightarrow> (patch_error + string list) option" where
  "apply_hunks max_digits old_lines [] old_pos out = Some (Inr (out @ drop old_pos old_lines))"
| "apply_hunks max_digits old_lines (line # rest) old_pos out =
     (case hunk_re_match line of
        None \<Rightarrow> Some (Inl (InvalidHunkHeader line))
      | Some g \<Rightarrow>
          (case header_numbers max_digits g of
             None \<Rightarrow> None
           | Some (old_start, old_count, new_start, new_count) \<Rightarrow>
               if int old_start - 1 < int old_pos then Some (Inl OverlappingHunks)
               else
                 let target_old_index = old_start - 1;
                     out1 = out @ take (target_old_index - old_pos) (drop old_pos old_lines)
                 in case hunk_body old_lines rest target_old_index out1 0 0 of
                      Inl e \<Rightarrow> Some (Inl e)
                    | Inr (rest', old_pos', out', consumed_old, produced_new) \<Rightarrow>
                        if old_count \<noteq> consumed_old
                        then Some (Inl (OldCountMismatch old_count consumed_old))
                        else if new_count \<noteq> produced_new
                        then Some (Inl (NewCountMismatch new_count produced_new))
                        else apply_hunks max_digits old_lines rest' old_pos' out'))"
  by pat_completeness auto
termination
proof (relation "measure (\<lambda>(max_digits, old_lines, ls, old_pos, out). length ls)", goal_cases)
  case 1
  show ?case by simp
next
  case (2 max_digits old_lines line rest old_pos out g x2 old_start x2a old_count x2b new_start
      new_count target_old_index out1 x2c rest' x2d)
  then show ?case
    using hunk_body_rest_length [of old_lines rest target_old_index out1 0 0 rest'] by auto
qed

declare apply_hunks.simps [simp del]

definition skip_header :: "string \<Rightarrow> string list \<Rightarrow> string list" where
  \<comment> \<open>\<open>if idx < len(lines) and lines[idx].startswith(p): idx += 1\<close>\<close>
  "skip_header p ls = (case ls of [] \<Rightarrow> [] | l # r \<Rightarrow> if starts_with p l then r else ls)"

text \<open>
  \<open>EditorEngine.apply_unified_diff\<close>, under an interpreter whose limit on the digits of
  \<open>int(s)\<close> is \<open>max_digits\<close>: \<open>None\<close> when the call raises \<open>ValueError\<close>, the
  \<open>PatchResult\<close> otherwise.
\<close>

definition apply_unified_diff :: "nat \<Rightarrow> string \<Rightarrow> string \<Rightarrow> patch_result option" where
  "apply_unified_diff max_digits old_text diff_text =
     (if py_strip diff_text = []
      then Some \<lparr> ok = True, diff = diff_text, new_text = Some old_text, error = None \<rparr>
      else
        let old_lines = py_splitlines True old_text;
            lines = py_splitlines False diff_text;
            lines1 = skip_header ''--- '' lines;
            lines2 = skip_header ''+++ '' lines1
        in case apply_hunks max_digits old_lines lines2 0 [] of
             None \<Rightarrow> None
           | Some (Inl e) \<Rightarrow>
               Some \<lparr> ok = False, diff = diff_text, new_text = None, error = Some e \<rparr>
           | Some (Inr out) \<Rightarrow>
               Some \<lparr> ok = True, diff = diff_text, new_text = Some (concat out), error = None \<rparr>)"

subsection \<open>What a consistent diff is\<close>

definition is_body_line :: "string \<Rightarrow> bool" where
  "is_body_line l = (\<not> starts_with ''@@ '' l)"

function split_hunks :: "string list \<Rightarrow> (string \<times> string list) list" where
  "split_hunks [] = []"
| "split_hunks (l # ls) = (l, takeWhile is_body_line ls) # split_hunks (dropWhile is_body_line ls)"
  by pat_completeness auto
termination
  by (relation "measure length") (simp_all add: length_dropWhile_le less_Suc_eq_le)

definition hunk_header :: "string \<Rightarrow> (nat \<times> nat \<times> nat \<times> nat) option" where
  \<comment> \<open>the four numbers that a header line denotes\<close>
  "hunk_header l =
     (case hunk_re_match l of
        None \<Rightarrow> None
      | Some (g1, g2, g3, g4) \<Rightarrow>
          Some (int_of_digits g1, int_of_digits (case g2 of None \<Rightarrow> ''1'' | Some g \<Rightarrow> g),
                int_of_digits g3, int_of_digits (case g4 of None \<Rightarrow> ''1'' | Some g \<Rightarrow> g)))"

definition header_raises :: "nat \<Rightarrow> string \<Rightarrow> bool" where
  \<comment> \<open>the line is a hunk header, and one of its numbers has too many digits for \<open>int\<close>\<close>
  "header_raises max_digits l =
     (case hunk_re_match l of None \<Rightarrow> False | Some g \<Rightarrow> header_numbers max_digits g = None)"

definition hunk_lines :: "string list \<Rightarrow> string list" where
  "hunk_lines body = filter (\<lambda>l. \<not> starts_with no_newline_marker l) body"

definition line_ok :: "string \<Rightarrow> bool" where
  "line_ok l = (starts_with '' '' l \<or> starts_with ''-'' l \<or> starts_with ''+'' l)"

definition line_content :: "string \<Rightarrow> string" where
  "line_content l = drop 1 l @ [LF]"

definition body_ok :: "string list \<Rightarrow> bool" where
  "body_ok body = (\<forall>l \<in> set (hunk_lines body). line_ok l)"

definition old_side :: "string list \<Rightarrow> string list" where
  "old_side body =
     map line_content (filter (\<lambda>l. starts_with '' '' l \<or> starts_with ''-'' l) (hunk_lines body))"

definition new_side :: "string list \<Rightarrow> string list" where
  "new_side body =
     map line_content (filter (\<lambda>l. starts_with '' '' l \<or> starts_with ''+'' l) (hunk_lines body))"

definition old_matches :: "string list \<Rightarrow> nat \<Rightarrow> string list \<Rightarrow> bool" where
  "old_matches old_lines pos xs =
     (\<forall>i < length xs. pos + i < length old_lines \<and> old_lines ! (pos + i) = xs ! i)"

definition hunk_consistent :: "string list \<Rightarrow> string \<times> string list \<Rightarrow> bool" where
  "hunk_consistent old_lines h =
     (case hunk_header (fst h) of
        None \<Rightarrow> False
      | Some (old_start, old_count, new_start, new_count) \<Rightarrow>
          body_ok (snd h)
          \<and> old_matches old_lines (old_start - 1) (old_side (snd h))
          \<and> length (old_side (snd h)) = old_count
          \<and> length (new_side (snd h)) = new_count)"

fun hunks_ordered :: "nat \<Rightarrow> (string \<times> string list) list \<Rightarrow> bool" where
  "hunks_ordered pos [] = True"
| "hunks_ordered pos (h # hs) =
     (case hunk_header (fst h) of
        None \<Rightarrow> False
      | Some (old_start, old_count, new_start, new_count) \<Rightarrow>
          1 \<le> old_start \<and> pos \<le> old_start - 1 \<and> hunks_ordered (old_start - 1 + old_count) hs)"

fun patched :: "string list \<Rightarrow> nat \<Rightarrow> (string \<times> string list) list \<Rightarrow> string list" where
  "patched old_lines pos [] = drop pos old_lines"
| "patched old_lines pos (h # hs) =
     (case hunk_header (fst h) of
        None \<Rightarrow> []
      | Some (old_start, old_count, new_start, new_count) \<Rightarrow>
          take (old_start - 1 - pos) (drop pos old_lines) @ new_side (snd h)
            @ patched old_lines (old_start - 1 + old_count) hs)"

definition diff_hunks :: "string \<Rightarrow> (string \<times> string list) list" where
  "diff_hunks diff_text =
     split_hunks (skip_header ''+++ '' (skip_header ''--- '' (py_splitlines False diff_text)))"

subsection \<open>What an error reports\<close>

definition body_error_explains :: "string list \<Rightarrow> string list \<Rightarrow> patch_error \<Rightarrow> bool" where
  "body_error_explains old_lines body e =
     (case e of
        MalformedEmptyLine \<Rightarrow> [] \<in> set body
      | ContextMismatch expected got \<Rightarrow>
          (\<exists>l \<in> set (hunk_lines body). starts_with '' '' l \<and> expected = line_content l)
          \<and> got \<noteq> Some expected \<and> (\<forall>g. got = Some g \<longrightarrow> g \<in> set old_lines)
      | RemovalMismatch expected got \<Rightarrow>
          (\<exists>l \<in> set (hunk_lines body). starts_with ''-'' l \<and> expected = line_content l)
          \<and> got \<noteq> Some expected \<and> (\<forall>g. got = Some g \<longrightarrow> g \<in> set old_lines)
      | UnknownPrefix c l \<Rightarrow>
          l \<in> set (hunk_lines body) \<and> l \<noteq> [] \<and> c = hd l \<and> \<not> line_ok l
      | _ \<Rightarrow> False)"

definition error_explains ::
  "string list \<Rightarrow> nat \<Rightarrow> (string \<times> string list) list \<Rightarrow> patch_error \<Rightarrow> bool" where
  "error_explains old_lines pos hs e =
     (case e of
        InvalidHunkHeader l \<Rightarrow> (\<exists>h \<in> set hs. fst h = l \<and> hunk_re_match l = None)
      | OverlappingHunks \<Rightarrow> \<not> hunks_ordered pos hs
      | OldCountMismatch declared consumed \<Rightarrow>
          declared \<noteq> consumed
          \<and> (\<exists>h \<in> set hs. \<exists>old_start new_start new_count.
                hunk_header (fst h) = Some (old_start, declared, new_start, new_count)
                \<and> consumed = length (old_side (snd h)))
      | NewCountMismatch declared produced \<Rightarrow>
          declared \<noteq> produced
          \<and> (\<exists>h \<in> set hs. \<exists>old_start old_count new_start.
                hunk_header (fst h) = Some (old_start, old_count, new_start, declared)
                \<and> produced = length (new_side (snd h)))
      | _ \<Rightarrow> (\<exists>h \<in> set hs. body_error_explains old_lines (snd h) e))"

subsection \<open>Example texts\<close>

definition test_old :: string where
  "test_old = ''def f():'' @ [LF] @ ''    return 1'' @ [LF]"
definition test_new :: string where
  "test_new = ''def f(x):'' @ [LF] @ ''    return x'' @ [LF]"
definition test_difflib :: difflib where
  "test_difflib a b fromfile tofile =
     [''--- '' @ fromfile, ''+++ '' @ tofile, ''@@ -1,2 +1,2 @@'',
      ''-def f():'' @ [LF], ''-    return 1'' @ [LF],
      ''+def f(x):'' @ [LF], ''+    return x'' @ [LF]]"

definition good_diff :: string where
  "good_diff = concat (map (\<lambda>l. l @ [LF])
     [''--- a/code.py'', ''+++ b/code.py'', ''@@ -1,2 +1,2 @@'',
      ''-def f():'', ''-    return 1'', ''+def f(x):'', ''+    return x''])"

definition numbered_header :: "nat \<Rightarrow> string" where
  \<comment> \<open>a hunk header whose old start has \<open>n\<close> digits\<close>
  "numbered_header n = ''@@ -'' @ replicate n CHR ''1'' @ '' +1 @@''"

definition numbered_diff :: "nat \<Rightarrow> string" where
  \<comment> \<open>a diff of that header line and no body\<close>
  "numbered_diff n = numbered_header n @ [LF]"

section \<open>main.py: write tokens\<close>

text \<open>
  The standard library is outside the repository. Its functions are parameters of the
  model: the hex digest of SHA-256 over a text, HMAC-SHA256, URL-safe base64 in both
  directions, and JSON in both directions (with the UTF-8 step). Byte strings are lists
  of \<open>char\<close>. A decoder returns \<open>None\<close> where the Python function raises.
\<close>

datatype jval =
    JNull
  | JBool bool
  | JInt int
  | JFloat real
  | JStr string
  | JArr "jval list"
  | JObj "(string \<times> jval) list"

record pylib =
  sha256_hex :: "string \<Rightarrow> string"
  hmac_sha256 :: "string \<Rightarrow> string \<Rightarrow> string"
  b64_encode :: "string \<Rightarrow> string"
  b64_decode :: "string \<Rightarrow> string option"
  json_dumps :: "jval \<Rightarrow> string"
  json_loads :: "string \<Rightarrow> jval option"

definition sha256_text :: "pylib \<Rightarrow> string \<Rightarrow> string" where
  "sha256_text L s = sha256_hex L s"

definition rstrip_eq :: "string \<Rightarrow> string" where
  \<comment> \<open>\<open>s.rstrip(b"=")\<close>\<close>
  "rstrip_eq s = rev (dropWhile (\<lambda>c. c = CHR ''='') (rev s))"

definition b64url_decode :: "pylib \<Rightarrow> string \<Rightarrow> string option" where
  \<comment> \<open>\<open>_b64url_decode\<close>: the padding is restored; \<open>encode("ascii")\<close> raises on a code
      point above 127\<close>
  "b64url_decode L s =
     (if \<exists>c \<in> set s. (of_char c :: nat) \<ge> 128 then None
      else b64_decode L (s @ replicate ((4 - length s mod 4) mod 4) CHR ''=''))"

definition split_once :: "char \<Rightarrow> string \<Rightarrow> string \<times> string" where
  \<comment> \<open>\<open>s.split(c, 1)\<close> for an \<open>s\<close> that contains \<open>c\<close>\<close>
  "split_once c s = (takeWhile (\<lambda>x. x \<noteq> c) s, drop 1 (dropWhile (\<lambda>x. x \<noteq> c) s))"

definition dict_lookup :: "(string \<times> jval) list \<Rightarrow> string \<Rightarrow> jval" where
  \<comment> \<open>\<open>payload.get(k)\<close>: \<open>None\<close> for a missing key\<close>
  "dict_lookup d k = (case map_of d k of Some v \<Rightarrow> v | None \<Rightarrow> JNull)"

definition py_eq_int :: "jval \<Rightarrow> int \<Rightarrow> bool" where
  \<comment> \<open>\<open>v == n\<close> for an \<open>int\<close> \<open>n\<close>: a bool counts as 0 or 1, a float by its value\<close>
  "py_eq_int v n =
     (case v of JInt i \<Rightarrow> i = n | JBool b \<Rightarrow> (if b then 1 else 0) = n
      | JFloat r \<Rightarrow> r = of_int n | _ \<Rightarrow> False)"

definition py_eq_str :: "jval \<Rightarrow> string \<Rightarrow> bool" where
  "py_eq_str v s = (case v of JStr t \<Rightarrow> t = s | _ \<Rightarrow> False)"

definition py_as_int :: "jval \<Rightarrow> int option" where
  \<comment> \<open>the value when \<open>isinstance(v, int)\<close>, which holds for a bool too\<close>
  "py_as_int v = (case v of JInt i \<Rightarrow> Some i | JBool b \<Rightarrow> Some (if b then 1 else 0)
                  | _ \<Rightarrow> None)"

text \<open>
  \<open>App.issue_write_token\<close>. The configured lifetime, the clock reading
  \<open>int(time.time())\<close> and the nonce \<open>secrets.token_urlsafe(12)\<close> are arguments.
\<close>

definition token_payload ::
  "pylib \<Rightarrow> int \<Rightarrow> int \<Rightarrow> string \<Rightarrow> string \<Rightarrow> string \<Rightarrow> string \<Rightarrow> string \<Rightarrow> string
     \<Rightarrow> (string \<times> jval) list" where
  "token_payload L ttl now nonce op_name required filename base_code diff_text =
     [(''v'', JInt 1), (''op'', JStr op_name), (''ru'', JStr required), (''iat'', JInt now),
      (''exp'', JInt (now + ttl)), (''nonce'', JStr nonce), (''fn'', JStr filename),
      (''base_hash'', JStr (sha256_text L base_code)),
      (''diff_hash'', JStr (sha256_text L diff_text))]"

definition issue_write_token ::
  "pylib \<Rightarrow> string \<Rightarrow> int option \<Rightarrow> int \<Rightarrow> string \<Rightarrow> string \<Rightarrow> string \<Rightarrow> string \<Rightarrow> string
     \<Rightarrow> string \<Rightarrow> string \<times> int" where
  "issue_write_token L secret ttl_cfg now nonce op_name required filename base_code diff_text =
     (let ttl = (case ttl_cfg of None \<Rightarrow> 120 | Some t \<Rightarrow> t);
          payload = JObj (token_payload L ttl now nonce op_name required filename base_code
                            diff_text);
          raw = json_dumps L payload;
          payload_b64 = rstrip_eq (b64_encode L raw);
          sig = hmac_sha256 L secret payload_b64;
          sig_b64 = rstrip_eq (b64_encode L sig)
      in (payload_b64 @ ''.'' @ sig_b64, ttl))"

text \<open>
  \<open>App.verify_write_token\<close>. The result is the pair the method returns, or \<open>None\<close>
  when \<open>payload.get\<close> raises because the signed JSON value is not an object.
\<close>

definition verify_write_token ::
  "pylib \<Rightarrow> string \<Rightarrow> int \<Rightarrow> string \<Rightarrow> string \<Rightarrow> string \<Rightarrow> string \<Rightarrow> string \<Rightarrow> string
     \<Rightarrow> (bool \<times> string option) option" where
  "verify_write_token L secret now token op_name required filename base_code diff_text =
     (if token = [] \<or> CHR ''.'' \<notin> set token then Some (False, Some ''missing_or_malformed'')
      else
        let (payload_part, sig_part) = split_once CHR ''.'' token
        in if payload_part = [] \<or> sig_part = [] then Some (False, Some ''missing_or_malformed'')
           else
             case (b64url_decode L payload_part, b64url_decode L sig_part) of
               (Some payload_raw, Some sig) \<Rightarrow>
                 if sig \<noteq> hmac_sha256 L secret payload_part
                 then Some (False, Some ''bad_signature'')
                 else
                   (case json_loads L payload_raw of
                      None \<Rightarrow> Some (False, Some ''bad_payload'')
                    | Some (JObj payload) \<Rightarrow>
                        if \<not> py_eq_int (dict_lookup payload ''v'') 1
                        then Some (False, Some ''bad_version'')
                        else if \<not> py_eq_str (dict_lookup payload ''op'') op_name
                        then Some (False, Some ''bad_op'')
                        else if \<not> py_eq_str (dict_lookup payload ''ru'') required
                        then Some (False, Some ''wrong_unlock'')
                        else if \<not> py_eq_str (dict_lookup payload ''fn'') filename
                        then Some (False, Some ''wrong_filename'')
                        else if \<not> py_eq_str (dict_lookup payload ''base_hash'')
                                   (sha256_text L base_code)
                        then Some (False, Some ''wrong_base'')
                        else if \<not> py_eq_str (dict_lookup payload ''diff_hash'')
                                   (sha256_text L diff_text)
                        then Some (False, Some ''wrong_diff'')
                        else
                          (case py_as_int (dict_lookup payload ''exp'') of
                             None \<Rightarrow> Some (False, Some ''bad_exp'')
                           | Some e \<Rightarrow>
                               if now > e then Some (False, Some ''expired'')
                               else Some (True, None))
                    | Some _ \<Rightarrow> None)
             | _ \<Rightarrow> Some (False, Some ''bad_base64''))"

text \<open>
  What the token code relies on in the library: decoding a base64 text whose padding
  was stripped gives the bytes back; the encoding of a non-empty byte string is not
  empty after stripping and has no dot; an HMAC and a JSON text are not empty; and
  loading the JSON text of an object of integers and strings gives an object with the
  same entries.
\<close>

definition scalar :: "jval \<Rightarrow> bool" where
  "scalar v = (case v of JInt i \<Rightarrow> True | JStr s \<Rightarrow> True | _ \<Rightarrow> False)"

definition lib_ok :: "pylib \<Rightarrow> bool" where
  "lib_ok L =
     ((\<forall>x. b64url_decode L (rstrip_eq (b64_encode L x)) = Some x)
      \<and> (\<forall>x. x \<noteq> [] \<longrightarrow> rstrip_eq (b64_encode L x) \<noteq> [])
      \<and> (\<forall>x. CHR ''.'' \<notin> set (b64_encode L x))
      \<and> (\<forall>k m. hmac_sha256 L k m \<noteq> [])
      \<and> (\<forall>j. json_dumps L j \<noteq> [])
      \<and> (\<forall>kvs. list_all (\<lambda>kv. scalar (snd kv)) kvs \<longrightarrow>
           (\<exists>kvs'. json_loads L (json_dumps L (JObj kvs)) = Some (JObj kvs')
                    \<and> map_of kvs' = map_of kvs)))"

text \<open>A library that satisfies the contract, built from the countability of the types.\<close>

definition toy_scalar :: "jval \<Rightarrow> int + string" where
  "toy_scalar v = (case v of JInt i \<Rightarrow> Inl i | JStr s \<Rightarrow> Inr s | _ \<Rightarrow> Inl 0)"

definition toy_jval :: "int + string \<Rightarrow> jval" where
  "toy_jval x = (case x of Inl i \<Rightarrow> JInt i | Inr s \<Rightarrow> JStr s)"

definition toy_dumps :: "jval \<Rightarrow> string" where
  "toy_dumps j =
     (case j of
        JObj kvs \<Rightarrow> replicate (Suc (to_nat (map (\<lambda>kv. (fst kv, toy_scalar (snd kv))) kvs))) CHR ''j''
      | _ \<Rightarrow> ''null'')"

definition toy_loads :: "string \<Rightarrow> jval option" where
  "toy_loads s =
     Some (JObj (map (\<lambda>kv. (fst kv, toy_jval (snd kv)))
                   (from_nat (length s - 1) :: (string \<times> (int + string)) list)))"

definition toy_lib :: pylib where
  "toy_lib =
     \<lparr> sha256_hex = (\<lambda>s. s),
       hmac_sha256 = (\<lambda>k m. CHR ''h'' # k @ m),
       b64_encode = (\<lambda>x. replicate (Suc (to_nat x)) CHR ''A''),
       b64_decode = (\<lambda>s. Some (from_nat (length (filter (\<lambda>c. c = CHR ''A'') s) - 1))),
       json_dumps = toy_dumps,
       json_loads = toy_loads \<rparr>"

section \<open>main.py: the /edit operation\<close>

text \<open>
  \<open>Handler.do_POST\<close> on the path \<open>/edit\<close> is modelled as a function from the environment,
  the application state and the parsed request to the list of its effects, in the order
  in which the code performs them: records appended to the audit store, tokens minted,
  file system calls, and the response sent. The application state is not changed by
  \<open>/edit\<close>. The request fields are strings or absent; the configuration of
  \<open>patch_editing\<close> is typed (flags are booleans, sizes and ceilings are integers).
\<close>

record patch_cfg =
  max_new_code_chars :: "int option"
  require_code_eval_pass :: "bool option"
  require_write_token :: "bool option"
  write_token_ttl_seconds :: "int option"
  write_to_file :: "bool option"
  max_changes_by_required_unlock :: "(string \<rightharpoonup> int) option"

record app =
  app_model :: learning_model
  app_patch_cfg :: patch_cfg
  app_secret :: string
  app_workspace_root :: "string list"

text \<open>
  What the handler reads from outside the repository: the library of the token code,
  \<open>difflib.unified_diff\<close>, the scorer, the file system (\<open>Path.resolve\<close> on the components
  of an absolute path, \<open>exists\<close>, \<open>read_text\<close>, and whether \<open>mkdir\<close> and \<open>write_text\<close>
  succeed), the clock, the nonce source, and the interpreter's limit on the digits of
  \<open>int(s)\<close>. A file system function returns \<open>None\<close> or \<open>False\<close> where the Python call
  raises. An exception that no \<open>try\<close> block of the handler catches ends the request
  without a response: the effect \<open>Unhandled\<close>.
\<close>

record env =
  lib :: pylib
  unified_diff :: difflib
  scorer :: "string \<Rightarrow> string option \<Rightarrow> string option \<Rightarrow> string option \<Rightarrow> scoring"
  fs_resolve :: "string list \<Rightarrow> string list option"
  fs_exists :: "string list \<Rightarrow> bool"
  fs_read_text :: "string list \<Rightarrow> string option"
  fs_mkdir_ok :: "string list \<Rightarrow> bool"
  fs_write_ok :: "string list \<Rightarrow> string \<Rightarrow> bool"
  clock :: int
  fresh_nonce :: string
  int_max_str_digits :: nat

record diff_stat =
  additions :: nat
  deletions :: nat
  total_changes :: nat

fun diff_stats_loop :: "string list \<Rightarrow> nat \<Rightarrow> nat \<Rightarrow> nat \<times> nat" where
  "diff_stats_loop [] adds dels = (adds, dels)"
| "diff_stats_loop (line # rest) adds dels =
     (if line = [] then diff_stats_loop rest adds dels
      else if starts_with ''+++'' line \<or> starts_with ''---'' line \<or> starts_with ''@@'' line
      then diff_stats_loop rest adds dels
      else if starts_with ''+'' line then diff_stats_loop rest (adds + 1) dels
      else if starts_with ''-'' line then diff_stats_loop rest adds (dels + 1)
      else diff_stats_loop rest adds dels)"

definition diff_stats :: "string \<Rightarrow> diff_stat" where
  "diff_stats diff_text =
     (let (adds, dels) = diff_stats_loop (py_splitlines False diff_text) 0 0
      in \<lparr> additions = adds, deletions = dels, total_changes = adds + dels \<rparr>)"

definition max_changes_for_unlock :: "patch_cfg \<Rightarrow> string \<Rightarrow> int option" where
  "max_changes_for_unlock cfg required =
     (case max_changes_by_required_unlock cfg of
        None \<Rightarrow> None
      | Some mapping \<Rightarrow> mapping required)"

subsection \<open>Workspace paths\<close>

text \<open>
  Paths are lists of components, as \<open>PurePosixPath\<close> splits them: empty components and
  \<open>.\<close> are dropped, \<open>..\<close> is kept for \<open>resolve\<close>. \<open>relative_to\<close> succeeds when the
  components of the root are a prefix of the components of the target.
\<close>

fun split_on :: "char \<Rightarrow> string \<Rightarrow> string list" where
  "split_on c [] = [[]]"
| "split_on c (x # xs) =
     (if x = c then [] # split_on c xs
      else (case split_on c xs of [] \<Rightarrow> [[x]] | w # ws \<Rightarrow> (x # w) # ws))"

definition path_parts :: "string \<Rightarrow> string list" where
  "path_parts filename = filter (\<lambda>p. p \<noteq> [] \<and> p \<noteq> ''.'') (split_on CHR ''/'' filename)"

definition path_is_absolute :: "string \<Rightarrow> bool" where
  "path_is_absolute filename = starts_with ''/'' filename"

definition is_relative_to :: "string list \<Rightarrow> string list \<Rightarrow> bool" where
  "is_relative_to target base_dir = (take (length base_dir) target = base_dir)"

definition resolve_workspace_path :: "env \<Rightarrow> app \<Rightarrow> string \<Rightarrow> string + string list" where
  "resolve_workspace_path E A filename =
     (if path_is_absolute filename then Inl ''absolute paths are not allowed''
      else
        case fs_resolve E (app_workspace_root A @ path_parts filename) of
          None \<Rightarrow> Inl ''resolve failed''
        | Some target \<Rightarrow>
            if is_relative_to target (app_workspace_root A) then Inr target
            else Inl ''path escapes workspace'')"

subsection \<open>Requests, responses and effects\<close>

record edit_request =
  rq_text :: "string option"
  rq_expected_intent :: "string option"
  rq_requested_action :: "string option"
  rq_tests :: "string option"
  rq_filename :: "string option"
  rq_diff :: "string option"
  rq_base_code :: "string option"
  rq_write_token :: "string option"
  rq_old_code :: "string option"
  rq_new_code :: "string option"

datatype meta_val = MStr string | MBool bool | MError "patch_error option"

record patch_event =
  pe_requested_action :: string
  pe_required_unlock :: string
  pe_allowed :: bool
  pe_old_hash :: string
  pe_new_hash :: string
  pe_diff_text :: string
  pe_meta :: "(string \<times> meta_val) list"

text \<open>
  The JSON body of a response, without the fields \<open>message\<close>, \<open>state\<close>, \<open>token_target\<close>
  and the two hashes, which repeat what the other fields and the model hold. The error
  text for an oversized \<open>new_code\<close> is written without the configured number.
\<close>

record response =
  rs_ok :: bool
  rs_error :: "string option"
  rs_reason :: "string option"
  rs_details :: "patch_error option"
  rs_filename :: "string option"
  rs_stats :: "diff_stat option"
  rs_report :: "score_report option"
  rs_applied :: bool
  rs_new_code :: "string option"
  rs_wrote_file :: bool
  rs_base_code :: "string option"
  rs_diff :: "string option"
  rs_write_token :: "string option"
  rs_expires_in_sec :: "int option"

datatype effect =
    LogPatch patch_event
  | IssueToken string
  | FsExists "string list"
  | FsReadText "string list"
  | FsMkdir "string list"
  | FsWriteText "string list" string
  | SendJson nat response
  | Unhandled

definition failure :: "string \<Rightarrow> response" where
  "failure msg =
     \<lparr> rs_ok = False, rs_error = Some msg, rs_reason = None, rs_details = None,
       rs_filename = None, rs_stats = None, rs_report = None, rs_applied = False,
       rs_new_code = None, rs_wrote_file = False, rs_base_code = None, rs_diff = None,
       rs_write_token = None, rs_expires_in_sec = None \<rparr>"

definition success :: response where
  "success = (failure [])\<lparr> rs_ok := True, rs_error := None \<rparr>"

definition or_empty :: "string option \<Rightarrow> string" where
  \<comment> \<open>\<open>req.get(k) or ""\<close>\<close>
  "or_empty v = (case v of None \<Rightarrow> [] | Some s \<Rightarrow> s)"

definition strip_or_none :: "string option \<Rightarrow> string option" where
  \<comment> \<open>\<open>(req.get(k) or "").strip() or None\<close>\<close>
  "strip_or_none v = (let s = py_strip (or_empty v) in if s = [] then None else Some s)"

definition request_text :: "edit_request \<Rightarrow> string" where
  "request_text rq = (let s = py_strip (or_empty (rq_text rq)) in if s = [] then ''(no-text)'' else s)"

definition request_filename :: "edit_request \<Rightarrow> string" where
  "request_filename rq = (let s = or_empty (rq_filename rq) in if s = [] then ''output_script.py'' else s)"

definition cfg_flag :: "bool option \<Rightarrow> bool" where
  \<comment> \<open>\<open>bool(patch_cfg.get(k, True))\<close>\<close>
  "cfg_flag v = (case v of None \<Rightarrow> True | Some b \<Rightarrow> b)"

definition op_apply :: string where
  "op_apply = ''edit_apply_unified_diff''"

definition locked_response :: "score_report \<Rightarrow> response" where
  "locked_response report = (failure ''Capability locked'')\<lparr> rs_report := Some report \<rparr>"

definition too_large_response :: "string \<Rightarrow> diff_stat \<Rightarrow> score_report \<Rightarrow> response" where
  "too_large_response filename stats report =
     (failure ''patch_too_large'')
       \<lparr> rs_filename := Some filename, rs_stats := Some stats, rs_report := Some report \<rparr>"

subsection \<open>The patch-application flow\<close>

definition apply_report :: "env \<Rightarrow> app \<Rightarrow> edit_request \<Rightarrow> score_report" where
  "apply_report E A rq =
     fst (evaluate (app_model A) (request_text rq) (strip_or_none (rq_expected_intent rq)) None
            (strip_or_none (rq_requested_action rq))
            (scorer E (request_text rq) (strip_or_none (rq_expected_intent rq)) None None))"

definition write_new_text :: "env \<Rightarrow> app \<Rightarrow> string \<Rightarrow> string \<Rightarrow> effect list \<times> string option" where
  \<comment> \<open>the \<open>try\<close> block that writes the file: the effects, and the message of the exception
      when one is raised\<close>
  "write_new_text E A filename new_code =
     (case resolve_workspace_path E A filename of
        Inl msg \<Rightarrow> ([], Some msg)
      | Inr target \<Rightarrow>
          if \<not> fs_mkdir_ok E (butlast target) then ([FsMkdir (butlast target)], Some ''mkdir failed'')
          else if \<not> fs_write_ok E target new_code
          then ([FsMkdir (butlast target), FsWriteText target new_code], Some ''write failed'')
          else ([FsMkdir (butlast target), FsWriteText target new_code], None))"

definition edit_apply :: "env \<Rightarrow> app \<Rightarrow> edit_request \<Rightarrow> effect list" where
  "edit_apply E A rq =
     (let filename = request_filename rq;
          base_code = or_empty (rq_base_code rq);
          diff_text = or_empty (rq_diff rq);
          write_token = or_empty (rq_write_token rq);
          report = apply_report E A rq
      in if \<not> allowed report then [SendJson 403 (locked_response report)]
         else
           let stats = diff_stats diff_text;
               max_changes = max_changes_for_unlock (app_patch_cfg A) (required_unlock report)
           in if max_changes \<noteq> None \<and> int (total_changes stats) > the max_changes
              then [SendJson 403 (too_large_response filename stats report)]
              else
                let verdict =
                      (if cfg_flag (require_write_token (app_patch_cfg A))
                       then verify_write_token (lib E) (app_secret A) (clock E) write_token
                              op_apply (required_unlock report) filename base_code diff_text
                       else Some (True, None))
                in case verdict of
                     None \<Rightarrow> [Unhandled]
                   | Some (False, why) \<Rightarrow>
                       [SendJson 401 ((failure ''write_token_required'')
                          \<lparr> rs_reason := why, rs_report := Some report \<rparr>)]
                   | Some (True, why) \<Rightarrow>
                       (case apply_unified_diff (int_max_str_digits E) base_code diff_text of
                          None \<Rightarrow> [Unhandled]
                        | Some pr \<Rightarrow>
                          if \<not> ok pr \<or> new_text pr = None
                          then [LogPatch \<lparr> pe_requested_action = requested_action report,
                                   pe_required_unlock = required_unlock report, pe_allowed = True,
                                   pe_old_hash = sha256_text (lib E) base_code,
                                   pe_new_hash = sha256_text (lib E) base_code,
                                   pe_diff_text = diff_text,
                                   pe_meta = [(''op'', MStr ''apply''), (''error'', MError (error pr))] \<rparr>,
                                SendJson 400 ((failure ''Patch apply failed'')
                                   \<lparr> rs_details := error pr \<rparr>)]
                          else
                            let new_code = the (new_text pr);
                                logged = LogPatch \<lparr> pe_requested_action = requested_action report,
                                   pe_required_unlock = required_unlock report, pe_allowed = True,
                                   pe_old_hash = sha256_text (lib E) base_code,
                                   pe_new_hash = sha256_text (lib E) new_code,
                                   pe_diff_text = diff_text,
                                   pe_meta = [(''op'', MStr ''apply'')] \<rparr>;
                                reply = success
                                   \<lparr> rs_applied := True, rs_new_code := Some new_code,
                                     rs_filename := Some filename, rs_stats := Some stats,
                                     rs_report := Some report \<rparr>
                            in if cfg_flag (write_to_file (app_patch_cfg A))
                               then
                                 (case write_new_text E A filename new_code of
                                    (effs, Some msg) \<Rightarrow>
                                      logged # effs @
                                      [SendJson 400 ((failure ''file_write_failed'')
                                         \<lparr> rs_filename := Some filename \<rparr>)]
                                  | (effs, None) \<Rightarrow>
                                      logged # effs @
                                      [SendJson 200 (reply\<lparr> rs_wrote_file := True \<rparr>)])
                               else [logged, SendJson 200 reply]))"

subsection \<open>The patch-generation flow\<close>

definition load_old_code :: "env \<Rightarrow> app \<Rightarrow> edit_request \<Rightarrow> effect list \<times> string option" where
  \<comment> \<open>the old code of the request, read from the workspace file when the request has
      none; \<open>None\<close> when the \<open>try\<close> block raises\<close>
  "load_old_code E A rq =
     (let old_code = or_empty (rq_old_code rq); filename = request_filename rq
      in if old_code = [] \<and> filename \<noteq> [] then
           (case resolve_workspace_path E A filename of
              Inl msg \<Rightarrow> ([], None)
            | Inr target \<Rightarrow>
                if fs_exists E target then
                  (case fs_read_text E target of
                     None \<Rightarrow> ([FsExists target, FsReadText target], None)
                   | Some content \<Rightarrow> ([FsExists target, FsReadText target], Some content))
                else ([FsExists target], Some old_code))
         else ([], Some old_code))"

definition generate_report :: "env \<Rightarrow> app \<Rightarrow> edit_request \<Rightarrow> string \<Rightarrow> score_report" where
  "generate_report E A rq old_code =
     fst (evaluate (app_model A) (request_text rq) (strip_or_none (rq_expected_intent rq))
            (Some old_code) (strip_or_none (rq_requested_action rq))
            (scorer E (request_text rq) (strip_or_none (rq_expected_intent rq))
               (Some old_code) (rq_tests rq)))"

definition edit_generate_with :: "env \<Rightarrow> app \<Rightarrow> edit_request \<Rightarrow> string \<Rightarrow> effect list" where
  "edit_generate_with E A rq old_code =
     (let filename = request_filename rq;
          new_code = or_empty (rq_new_code rq);
          max_chars = (case max_new_code_chars (app_patch_cfg A) of None \<Rightarrow> 200000 | Some n \<Rightarrow> n)
      in if int (length new_code) > max_chars
         then [SendJson 400 (failure ''new_code too large'')]
         else if old_code = [] \<and> new_code = []
         then [SendJson 400 (failure ''Provide old_code and new_code.'')]
         else
           let report = generate_report E A rq old_code in
           if \<not> allowed report
           then [LogPatch \<lparr> pe_requested_action = requested_action report,
                    pe_required_unlock = required_unlock report, pe_allowed = False,
                    pe_old_hash = sha256_text (lib E) old_code,
                    pe_new_hash = sha256_text (lib E) old_code, pe_diff_text = [],
                    pe_meta = [(''op'', MStr ''generate''), (''blocked'', MBool True)] \<rparr>,
                 SendJson 403 (locked_response report)]
           else if cfg_flag (require_code_eval_pass (app_patch_cfg A))
                   \<and> code_eval report \<noteq> Some True
           then [LogPatch \<lparr> pe_requested_action = requested_action report,
                    pe_required_unlock = required_unlock report, pe_allowed = True,
                    pe_old_hash = sha256_text (lib E) old_code,
                    pe_new_hash = sha256_text (lib E) old_code, pe_diff_text = [],
                    pe_meta = [(''op'', MStr ''generate''),
                               (''blocked_reason'', MStr ''code_eval_not_ok'')] \<rparr>,
                 SendJson 400 ((failure
                    ''Code evaluation did not pass; patch generation blocked by policy.'')
                    \<lparr> rs_report := Some report \<rparr>)]
           else
             let diff_text = generate_unified_diff (unified_diff E) old_code new_code;
                 stats = diff_stats diff_text;
                 max_changes = max_changes_for_unlock (app_patch_cfg A) (required_unlock report)
             in if max_changes \<noteq> None \<and> int (total_changes stats) > the max_changes
                then [SendJson 403 (too_large_response filename stats report)]
                else
                  let minted =
                        (if cfg_flag (require_write_token (app_patch_cfg A))
                         then Some (issue_write_token (lib E) (app_secret A)
                                 (write_token_ttl_seconds (app_patch_cfg A)) (clock E)
                                 (fresh_nonce E) op_apply (required_unlock report) filename
                                 old_code diff_text)
                         else None)
                  in (case minted of None \<Rightarrow> [] | Some (tok, ttl) \<Rightarrow> [IssueToken tok])
                     @ [LogPatch \<lparr> pe_requested_action = requested_action report,
                          pe_required_unlock = required_unlock report, pe_allowed = True,
                          pe_old_hash = sha256_text (lib E) old_code,
                          pe_new_hash = sha256_text (lib E) new_code, pe_diff_text = diff_text,
                          pe_meta = [(''op'', MStr ''generate'')] \<rparr>,
                        SendJson 200 (success
                          \<lparr> rs_filename := Some filename, rs_base_code := Some old_code,
                            rs_diff := Some diff_text,
                            rs_write_token := map_option fst minted,
                            rs_expires_in_sec := map_option snd minted,
                            rs_stats := Some stats, rs_report := Some report \<rparr>)])"

definition edit_generate :: "env \<Rightarrow> app \<Rightarrow> edit_request \<Rightarrow> effect list" where
  "edit_generate E A rq =
     (case load_old_code E A rq of
        (effs, None) \<Rightarrow>
          effs @ [SendJson 400 ((failure ''file_read_failed'')
                    \<lparr> rs_filename := Some (request_filename rq) \<rparr>)]
      | (effs, Some old_code) \<Rightarrow> effs @ edit_generate_with E A rq old_code)"

definition handle_edit :: "env \<Rightarrow> app \<Rightarrow> edit_request \<Rightarrow> effect list" where
  \<comment> \<open>\<open>Handler.do_POST\<close> on the path \<open>/edit\<close>, for a body that parses as JSON\<close>
  "handle_edit E A rq =
     (if rq_diff rq \<noteq> None \<and> rq_base_code rq \<noteq> None then edit_apply E A rq
      else edit_generate E A rq)"

subsection \<open>Reading the effects of a request\<close>

fun is_issue :: "effect \<Rightarrow> bool" where
  "is_issue (IssueToken t) = True"
| "is_issue e = False"

fun is_write :: "effect \<Rightarrow> bool" where
  "is_write (FsWriteText p t) = True"
| "is_write (FsMkdir p) = True"
| "is_write e = False"

fun is_log :: "effect \<Rightarrow> bool" where
  "is_log (LogPatch ev) = True"
| "is_log e = False"

fun is_success :: "effect \<Rightarrow> bool" where
  "is_success (SendJson c r) = rs_ok r"
| "is_success e = False"

fun is_failure :: "effect \<Rightarrow> bool" where
  "is_failure (SendJson c r) = (\<not> rs_ok r)"
| "is_failure e = False"

definition generate_gates_pass :: "env \<Rightarrow> app \<Rightarrow> edit_request \<Rightarrow> string \<Rightarrow> bool" where
  "generate_gates_pass E A rq old_code =
     (int (length (or_empty (rq_new_code rq)))
        \<le> (case max_new_code_chars (app_patch_cfg A) of None \<Rightarrow> 200000 | Some n \<Rightarrow> n)
      \<and> (old_code \<noteq> [] \<or> or_empty (rq_new_code rq) \<noteq> [])
      \<and> allowed (generate_report E A rq old_code)
      \<and> (cfg_flag (require_code_eval_pass (app_patch_cfg A))
           \<longrightarrow> code_eval (generate_report E A rq old_code) = Some True))"

subsection \<open>An example deployment\<close>

fun lexical_resolve :: "string list \<Rightarrow> string list \<Rightarrow> string list" where
  "lexical_resolve acc [] = rev acc"
| "lexical_resolve acc (p # ps) =
     (if p = ''..'' then lexical_resolve (tl acc) ps else lexical_resolve (p # acc) ps)"

definition demo_env :: env where
  "demo_env =
     \<lparr> lib = toy_lib, unified_diff = test_difflib, scorer = (\<lambda>t e c ts. demo_scoring (Finite 1)),
       fs_resolve = (\<lambda>p. Some (lexical_resolve [] p)), fs_exists = (\<lambda>p. False),
       fs_read_text = (\<lambda>p. None), fs_mkdir_ok = (\<lambda>p. True), fs_write_ok = (\<lambda>p t. True),
       clock = 100, fresh_nonce = ''n'', int_max_str_digits = 4300 \<rparr>"

definition unlocked_model :: learning_model where
  "unlocked_model =
     update_progress (update_progress demo_model (demo_report (Finite 1))) (demo_report (Finite 1))"

definition demo_cfg :: patch_cfg where
  "demo_cfg =
     \<lparr> max_new_code_chars = None, require_code_eval_pass = None, require_write_token = None,
       write_token_ttl_seconds = None, write_to_file = None,
       max_changes_by_required_unlock = Some [''minor_edits'' \<mapsto> 1] \<rparr>"

definition demo_app :: "learning_model \<Rightarrow> patch_cfg \<Rightarrow> app" where
  "demo_app m cfg =
     \<lparr> app_model = m, app_patch_cfg = cfg, app_secret = ''k'',
       app_workspace_root = [''srv'', ''workspace''] \<rparr>"

definition generate_request :: edit_request where
  "generate_request =
     \<lparr> rq_text = Some ''edit'', rq_expected_intent = None,
       rq_requested_action = Some ''minor_edit'', rq_tests = None, rq_filename = None,
       rq_diff = None, rq_base_code = None, rq_write_token = None,
       rq_old_code = Some test_old, rq_new_code = Some test_new \<rparr>"

definition apply_request :: edit_request where
  "apply_request =
     generate_request\<lparr> rq_diff := Some good_diff, rq_base_code := Some test_old,
       rq_old_code := None, rq_new_code := None \<rparr>"

definition open_cfg :: "bool option \<Rightarrow> patch_cfg" where
  "open_cfg wtf =
     \<lparr> max_new_code_chars = None, require_code_eval_pass = None,
       require_write_token = Some False, write_token_ttl_seconds = None, write_to_file = wtf,
       max_changes_by_required_unlock = None \<rparr>"

definition escape_request :: "string \<Rightarrow> edit_request" where
  "escape_request filename = apply_request\<lparr> rq_filename := Some filename \<rparr>"

definition long_number_request :: edit_request where
  \<comment> \<open>the request for \<open>/etc/passwd\<close>, with a diff whose header number has 4301 digits\<close>
  "long_number_request = (escape_request ''/etc/passwd'')\<lparr> rq_diff := Some (numbered_diff 4301) \<rparr>"

section \<open>Properties of the learning model\<close>

lemma compute_unlocks_keys: "map fst (compute_unlocks m p) = fixed_tiers"
  by (simp add: compute_unlocks_def fixed_tiers_def)

lemma alist_get_compute_unlocks:
  "alist_get (compute_unlocks m p) tier False =
     (case tier_threshold m tier of None \<Rightarrow> False | Some t \<Rightarrow> fge p t)"
  by (simp add: alist_get_def compute_unlocks_def tier_threshold_def)

lemma evaluate_snd: "snd (evaluate m tx ex code ra sc) = m"
  by (simp add: evaluate_def Let_def split: prod.splits)

lemma evaluate_allowed:
  "allowed (fst (evaluate m tx ex code ra sc)) =
     alist_get (compute_unlocks m (history_percent m))
       (snd (resolve_required_unlock m (sc_predicted_intent sc) ra)) False"
  by (simp add: evaluate_def Let_def history_percent_def split: prod.splits)

lemma evaluate_required:
  "required_unlock (fst (evaluate m tx ex code ra sc)) =
     snd (resolve_required_unlock m (sc_predicted_intent sc) ra)"
  by (simp add: evaluate_def Let_def split: prod.splits)

lemma evaluate_unlocks_before:
  "unlocks_before (fst (evaluate m tx ex code ra sc)) =
     compute_unlocks m (history_percent m)"
  by (simp add: evaluate_def Let_def history_percent_def split: prod.splits)

lemma history_percent_empty: "recent_scores m = [] \<Longrightarrow> history_percent m = Finite 0"
  by (simp add: history_percent_def py_slice_from_def)

lemma flt_not_fge: "flt a b \<Longrightarrow> \<not> fge a b"
  by (cases a; cases b) simp_all

text \<open>
  C2. The report's \<open>allowed\<close> flag is the entry of \<open>unlocks_before\<close> for the required tier
  (absent entries read as locked); \<open>unlocks_before\<close> is computed from the proficiency of
  the scores recorded before the submission; the flag is the same whatever score the
  submission itself earns; and with an empty history a tier whose threshold is positive
  is denied.
\<close>

theorem evaluate_allowed_is_unlock_before:
  "allowed (fst (evaluate m tx ex code ra sc))
     = alist_get (unlocks_before (fst (evaluate m tx ex code ra sc)))
         (required_unlock (fst (evaluate m tx ex code ra sc))) False
   \<and> unlocks_before (fst (evaluate m tx ex code ra sc))
       = compute_unlocks m (history_percent m)
   \<and> allowed (fst (evaluate m tx ex code ra sc))
       = allowed (fst (evaluate m tx ex code' ra (sc\<lparr>sc_total_score := s', sc_code_ok := b'\<rparr>)))
   \<and> (recent_scores m = [] \<longrightarrow>
        (\<forall>t. tier_threshold m (required_unlock (fst (evaluate m tx ex code ra sc))) = Some t
               \<longrightarrow> flt (Finite 0) t) \<longrightarrow>
        \<not> allowed (fst (evaluate m tx ex code ra sc)))"
  by (auto simp: evaluate_allowed evaluate_required evaluate_unlocks_before
      alist_get_compute_unlocks history_percent_empty flt_not_fge split: option.splits)

lemma demo_first:
  "fst (evaluate demo_model ''t'' None None (Some ''assist'') (demo_scoring (py_float (9 / 10)))) =
    \<lparr> text_of = ''t'', predicted_intent = ''unknown'', expected_intent = None,
       requested_action = ''assist'', required_unlock = ''assist_mode'', allowed = False,
       total_score = py_float (9 / 10),
       unlocks = [(''assist_mode'', True), (''minor_edits'', True),
                  (''refactor_lint'', True), (''autonomous_editing'', False)],
       unlocks_before = [(''assist_mode'', False), (''minor_edits'', False),
                  (''refactor_lint'', False), (''autonomous_editing'', False)],
       code_eval = None \<rparr>"
  by code_simp

text \<open>
  The first submission to \<open>demo_model\<close> scores 0.9 and asks for an \<open>assist_mode\<close>
  action: folding the score in would unlock the tier (\<open>unlocks\<close> says so), and the
  submission is denied.
\<close>

lemma half_positive: "flt (Finite 0) (py_float (1 / 2))"
  by code_simp

theorem evaluate_allowed_is_unlock_before_witness:
  "recent_scores demo_model = []
   \<and> tier_threshold demo_model ''assist_mode'' = Some (py_float (1 / 2))
   \<and> flt (Finite 0) (py_float (1 / 2))
   \<and> required_unlock (fst (evaluate demo_model ''t'' None None (Some ''assist'')
          (demo_scoring (py_float (9 / 10))))) = ''assist_mode''
   \<and> alist_get (unlocks (fst (evaluate demo_model ''t'' None None (Some ''assist'')
          (demo_scoring (py_float (9 / 10)))))) ''assist_mode'' False
   \<and> \<not> allowed (fst (evaluate demo_model ''t'' None None (Some ''assist'')
          (demo_scoring (py_float (9 / 10)))))"
proof -
  have t: "tier_threshold demo_model ''assist_mode'' = Some (py_float (1 / 2))"
    by (simp add: demo_model_def model_init_def tier_threshold_def dict_get_def)
  have e: "recent_scores demo_model = []" by (simp add: demo_model_def model_init_def)
  from evaluate_allowed_is_unlock_before
    [of demo_model "''t''" None None "Some ''assist''" "demo_scoring (py_float (9 / 10))"]
    t e half_positive
  show ?thesis by (simp add: demo_first alist_get_def)
qed

text \<open>
  C9. \<open>evaluate\<close> hands back the model it was given: \<open>recent_scores\<close>,
  \<open>current_percent\<close> and \<open>unlocked\<close> are the same before and after the call, whatever
  the submission and whether it is allowed or denied. \<open>update_config\<close> leaves the three
  fields alone as well, so \<open>update_progress\<close> is the only method that writes them.
\<close>

theorem evaluate_leaves_progress_unchanged:
  "snd (evaluate m tx ex code ra sc) = m
   \<and> recent_scores (snd (evaluate m tx ex code ra sc)) = recent_scores m
   \<and> current_percent (snd (evaluate m tx ex code ra sc)) = current_percent m
   \<and> unlocked (snd (evaluate m tx ex code ra sc)) = unlocked m
   \<and> recent_scores (update_config m th acts dflts w) = recent_scores m
   \<and> current_percent (update_config m th acts dflts w) = current_percent m
   \<and> unlocked (update_config m th acts dflts w) = unlocked m"
  by (simp add: evaluate_snd update_config_def)

lemma reachable_unlocked_keys: "reachable m \<Longrightarrow> map fst (unlocked m) = fixed_tiers"
proof (induction rule: reachable.induct)
  case (r_init th acts dflts w)
  show ?case by (simp add: model_init_def fixed_tiers_def)
next
  case (r_config m th acts dflts w)
  then show ?case by (simp add: update_config_def)
next
  case (r_evaluate m tx ex code ra sc)
  then show ?case by (simp add: evaluate_snd)
next
  case (r_progress m report)
  show ?case by (simp add: update_progress_def Let_def compute_unlocks_keys)
qed

lemma alist_get_not_key: "k \<notin> set (map fst d) \<Longrightarrow> alist_get d k dflt = dflt"
proof -
  assume "k \<notin> set (map fst d)"
  then have "map_of d k = None" by (simp add: map_of_eq_None_iff)
  then show ?thesis by (simp add: alist_get_def)
qed

text \<open>
  C10. The unlock map that \<open>_compute_unlocks\<close> builds has the four fixed tiers as its
  keys and no other. Hence for a tier name outside the four, in every reachable model,
  \<open>is_allowed\<close> is false, and every report whose required tier is that name has
  \<open>allowed = False\<close>, whatever the proficiency.
\<close>

theorem gate_fails_closed_outside_fixed_tiers:
  assumes "reachable m" and "tier \<notin> set fixed_tiers"
  shows "map fst (compute_unlocks m p) = fixed_tiers
    \<and> \<not> is_allowed m tier
    \<and> (required_unlock (fst (evaluate m tx ex code ra sc)) = tier
         \<longrightarrow> \<not> allowed (fst (evaluate m tx ex code ra sc)))"
proof -
  have "\<not> is_allowed m tier"
    using assms reachable_unlocked_keys [of m] alist_get_not_key [of tier "unlocked m" False]
    by (simp add: is_allowed_def)
  moreover have "alist_get (compute_unlocks m q) tier False = False" for q
    using assms(2) alist_get_not_key [of tier "compute_unlocks m q" False]
    by (simp add: compute_unlocks_keys)
  ultimately show ?thesis
    by (simp add: compute_unlocks_keys evaluate_allowed evaluate_required)
qed

lemma one_reaches:
  "fge (Finite 1) (py_float (1 / 2))" "fge (Finite 1) (py_float (7 / 10))"
  "fge (Finite 1) (py_float (9 / 10))" "fge (Finite 1) (py_float 1)"
  by code_simp+

lemma zero_below:
  "\<not> fge (Finite 0) (py_float (1 / 2))" "\<not> fge (Finite 0) (py_float (7 / 10))"
  "\<not> fge (Finite 0) (py_float (9 / 10))" "\<not> fge (Finite 0) (py_float 1)"
  by code_simp+

lemma mean_of_ones:
  "mean_scores [Finite 1] = Finite 1" "mean_scores [Finite 1, Finite 1] = Finite 1"
  by code_simp+

lemma demo_progress:
  "update_progress (update_progress demo_model (demo_report (Finite 1))) (demo_report (Finite 1)) =
     demo_model\<lparr> recent_scores := [Finite 1, Finite 1], current_percent := Finite 1,
        unlocked := [(''assist_mode'', True), (''minor_edits'', True),
                  (''refactor_lint'', True), (''autonomous_editing'', True)] \<rparr>"
  by (simp add: update_progress_def demo_model_def model_init_def demo_report_def
      py_slice_from_def mean_of_ones one_reaches compute_unlocks_def dict_get_def Let_def)

text \<open>
  After two perfect scores every fixed tier of \<open>demo_model\<close> is unlocked; the action
  \<open>deploy\<close> is mapped to the tier \<open>root_mode\<close>, which is not one of the four, and stays
  denied.
\<close>

theorem gate_fails_closed_outside_fixed_tiers_witness:
  "reachable (update_progress (update_progress demo_model (demo_report (Finite 1))) (demo_report (Finite 1)))
   \<and> ''root_mode'' \<notin> set fixed_tiers
   \<and> current_percent
        (update_progress (update_progress demo_model (demo_report (Finite 1))) (demo_report (Finite 1)))
        = Finite 1
   \<and> \<not> is_allowed
        (update_progress (update_progress demo_model (demo_report (Finite 1))) (demo_report (Finite 1)))
        ''root_mode''
   \<and> required_unlock (fst (evaluate
        (update_progress (update_progress demo_model (demo_report (Finite 1))) (demo_report (Finite 1)))
        ''t'' None None (Some ''deploy'') (demo_scoring (Finite 1)))) = ''root_mode''
   \<and> \<not> allowed (fst (evaluate
        (update_progress (update_progress demo_model (demo_report (Finite 1))) (demo_report (Finite 1)))
        ''t'' None None (Some ''deploy'') (demo_scoring (Finite 1))))"
proof -
  let ?m = "update_progress (update_progress demo_model (demo_report (Finite 1))) (demo_report (Finite 1))"
  have r: "reachable ?m"
    unfolding demo_model_def by (intro reachable.intros)
  have t: "''root_mode'' \<notin> set fixed_tiers" by (simp add: fixed_tiers_def)
  have q: "required_unlock (fst (evaluate ?m ''t'' None None (Some ''deploy'') (demo_scoring (Finite 1))))
             = ''root_mode''"
    by (simp add: evaluate_required demo_progress)
       (simp add: resolve_required_unlock_def demo_model_def model_init_def py_strip_def demo_scoring_def
          py_isspace_def dict_get_def Let_def)
  have c: "current_percent ?m = Finite 1" by (simp add: demo_progress)
  from gate_fails_closed_outside_fixed_tiers
         [OF r t, of "Finite 1" "''t''" None None "Some ''deploy''" "demo_scoring (Finite 1)"]
         q r t c
  show ?thesis by simp
qed

lemma slice_last_length:
  "0 < w \<Longrightarrow> int (length (py_slice_from xs (- w))) \<le> w"
  by (simp add: py_slice_from_def)

lemma slice_last: "0 < w \<Longrightarrow> py_slice_from xs (- w) = drop (length xs - nat w) xs"
proof -
  assume w: "0 < w"
  then have "nat (int (length xs) + - w) = length xs - nat w" by arith
  with w show ?thesis by (simp add: py_slice_from_def)
qed

lemma drop_last_snoc:
  assumes "0 < k"
  shows "drop (length (drop (length xs - k) xs @ [s]) - k) (drop (length xs - k) xs @ [s])
           = drop (length (xs @ [s]) - k) (xs @ [s])"
proof (cases "length xs < k")
  case True
  then show ?thesis by simp
next
  case False
  then have k: "k \<le> length xs" by simp
  with assms have l: "length (drop (length xs - k) xs @ [s]) - k = 1" by simp
  have a: "Suc (length xs) - k = Suc (length xs - k)" using k by simp
  have "drop 1 (drop (length xs - k) xs @ [s]) = drop (Suc (length xs - k)) xs @ [s]"
    using assms k by (simp add: drop_Suc [symmetric] del: drop_Suc) 
  then show ?thesis using k by (simp only: l) (simp add: a)
qed

lemma slice_last_snoc:
  "0 < w \<Longrightarrow> py_slice_from (py_slice_from xs (- w) @ [s]) (- w) = py_slice_from (xs @ [s]) (- w)"
  using drop_last_snoc [of "nat w" xs s] by (simp add: slice_last)

lemma update_progress_scores:
  "0 < window_size m \<Longrightarrow>
     recent_scores (update_progress m r)
       = py_slice_from (recent_scores m @ [total_score r]) (- window_size m)"
  by (auto simp add: update_progress_def Let_def py_slice_from_def)

lemma update_progress_config:
  "window_size (update_progress m r) = window_size m
   \<and> thresholds (update_progress m r) = thresholds m"
  by (simp add: update_progress_def Let_def)

lemma update_progress_derived:
  "current_percent (update_progress m r) = mean_scores (recent_scores (update_progress m r))
   \<and> unlocked (update_progress m r)
       = compute_unlocks (update_progress m r) (current_percent (update_progress m r))"
  by (simp add: update_progress_def Let_def compute_unlocks_def)

lemma foldl_update_progress_config:
  "window_size (foldl update_progress m rs) = window_size m"
  by (induction rs arbitrary: m) (simp_all add: update_progress_config)

lemma foldl_update_progress_scores:
  assumes "0 < window_size m" and "rs \<noteq> []"
  shows "recent_scores (foldl update_progress m rs)
           = py_slice_from (recent_scores m @ map total_score rs) (- window_size m)"
  using assms(2)
proof (induction rs rule: rev_induct)
  case Nil
  then show ?case by simp
next
  case (snoc r rs)
  let ?m = "foldl update_progress m rs"
  have w: "0 < window_size ?m" using assms(1) by (simp add: foldl_update_progress_config)
  show ?case
  proof (cases "rs = []")
    case True
    then show ?thesis using assms(1) by (simp add: update_progress_scores)
  next
    case False
    with snoc.IH have "recent_scores ?m
        = py_slice_from (recent_scores m @ map total_score rs) (- window_size m)" by simp
    then show ?thesis
      using w assms(1) slice_last_snoc [of "window_size m" "recent_scores m @ map total_score rs" "total_score r"]
      by (simp add: update_progress_scores foldl_update_progress_config)
  qed
qed

text \<open>
  C7, as the code has it. For a window size of at least 1, after any non-empty sequence
  of \<open>update_progress\<close> calls (from any model): \<open>recent_scores\<close> is the last
  \<open>window_size\<close> entries of the old scores followed by the reports' scores in call order
  (the oldest are evicted first), so at most \<open>window_size\<close> remain; \<open>current_percent\<close>
  is the float that \<open>sum(recent_scores) / len(recent_scores)\<close> computes from the retained
  scores, all of them and nothing else; and \<open>unlocked\<close> is \<open>_compute_unlocks\<close> of that
  float against the configured thresholds.
\<close>

theorem update_progress_window:
  assumes "0 < window_size m" and "rs \<noteq> []"
  shows "recent_scores (foldl update_progress m rs)
           = py_slice_from (recent_scores m @ map total_score rs) (- window_size m)
    \<and> int (length (recent_scores (foldl update_progress m rs))) \<le> window_size m
    \<and> current_percent (foldl update_progress m rs)
         = fdiv_len (py_sum (recent_scores (foldl update_progress m rs)))
             (length (recent_scores (foldl update_progress m rs)))
    \<and> unlocked (foldl update_progress m rs)
         = compute_unlocks m (current_percent (foldl update_progress m rs))"
proof -
  obtain rs' r where rs: "rs = rs' @ [r]"
    using assms(2) by (cases rs rule: rev_cases) auto
  let ?m1 = "foldl update_progress m rs'"
  have m': "foldl update_progress m rs = update_progress ?m1 r" by (simp add: rs)
  have s: "recent_scores (foldl update_progress m rs)
           = py_slice_from (recent_scores m @ map total_score rs) (- window_size m)"
    by (rule foldl_update_progress_scores [OF assms])
  have l: "int (length (recent_scores (foldl update_progress m rs))) \<le> window_size m"
    unfolding s by (rule slice_last_length [OF assms(1)])
  have ne: "recent_scores (foldl update_progress m rs) \<noteq> []"
    unfolding s using assms(1) by (simp add: py_slice_from_def rs)
  have c: "current_percent (foldl update_progress m rs)
         = mean_scores (recent_scores (foldl update_progress m rs))"
    unfolding m' by (simp add: update_progress_derived)
  have t: "thresholds (foldl update_progress m rs) = thresholds m"
    by (induction rs arbitrary: m) (simp_all add: update_progress_config)
  have u: "unlocked (foldl update_progress m rs)
         = compute_unlocks m (current_percent (foldl update_progress m rs))"
    using update_progress_derived [of ?m1 r] t unfolding m'
    by (simp add: compute_unlocks_def)
  have mx: "max 1 (length (recent_scores (foldl update_progress m rs)))
      = length (recent_scores (foldl update_progress m rs))"
    using ne by (cases "recent_scores (foldl update_progress m rs)") simp_all
  have c': "current_percent (foldl update_progress m rs)
         = fdiv_len (py_sum (recent_scores (foldl update_progress m rs)))
             (length (recent_scores (foldl update_progress m rs)))"
    unfolding c mean_scores_def mx ..
  from s l c' u show ?thesis by blast
qed

lemma window_example_mean:
  "fdiv_len (py_sum [py_float (9 / 10), py_float (7 / 10)])
     (length [py_float (9 / 10), py_float (7 / 10)]) = py_float (4 / 5)"
  by code_simp

text \<open>
  With a window of two, the scores 0.2, 0.9 and 0.7 leave 0.9 and 0.7, and their float
  mean is 0.8.
\<close>

theorem update_progress_window_witness:
  "0 < window_size demo_model
   \<and> [demo_report (py_float (1 / 5)), demo_report (py_float (9 / 10)),
       demo_report (py_float (7 / 10))] \<noteq> []
   \<and> recent_scores (foldl update_progress demo_model
        [demo_report (py_float (1 / 5)), demo_report (py_float (9 / 10)),
         demo_report (py_float (7 / 10))]) = [py_float (9 / 10), py_float (7 / 10)]
   \<and> current_percent (foldl update_progress demo_model
        [demo_report (py_float (1 / 5)), demo_report (py_float (9 / 10)),
         demo_report (py_float (7 / 10))]) = py_float (4 / 5)"
proof -
  let ?rs = "[demo_report (py_float (1 / 5)), demo_report (py_float (9 / 10)),
              demo_report (py_float (7 / 10))]"
  have w: "0 < window_size demo_model" by (simp add: demo_model_def model_init_def)
  have n: "?rs \<noteq> []" by simp
  have e: "recent_scores demo_model = []" by (simp add: demo_model_def model_init_def)
  note t = update_progress_window [OF w n]
  from t e have s: "recent_scores (foldl update_progress demo_model ?rs)
      = [py_float (9 / 10), py_float (7 / 10)]"
    by (simp add: demo_report_def py_slice_from_def demo_model_def model_init_def)
  from t have "current_percent (foldl update_progress demo_model ?rs)
      = fdiv_len (py_sum (recent_scores (foldl update_progress demo_model ?rs)))
          (length (recent_scores (foldl update_progress demo_model ?rs)))"
    by blast
  then have c: "current_percent (foldl update_progress demo_model ?rs) = py_float (4 / 5)"
    unfolding s window_example_mean .
  from w n s c show ?thesis by blast
qed

lemma seven_tenths: "py_float (7 / 10) = Finite (3152519739159347 / 4503599627370496)"
  by code_simp

lemma mean_of_sevens:
  "mean_scores [Finite (3152519739159347 / 4503599627370496),
       Finite (3152519739159347 / 4503599627370496),
       Finite (3152519739159347 / 4503599627370496)]
     = Finite (6305039478318693 / 9007199254740992)"
  by code_simp

lemma below_seven_tenths:
  "fge (Finite (6305039478318693 / 9007199254740992)) (py_float (1 / 2))"
  "\<not> fge (Finite (6305039478318693 / 9007199254740992)) (py_float (7 / 10))"
  "\<not> fge (Finite (6305039478318693 / 9007199254740992)) (py_float (9 / 10))"
  "\<not> fge (Finite (6305039478318693 / 9007199254740992)) (py_float 1)"
  by code_simp+

lemma three_sevens_scores:
  "recent_scores three_sevens
     = [Finite (3152519739159347 / 4503599627370496),
        Finite (3152519739159347 / 4503599627370496),
        Finite (3152519739159347 / 4503599627370496)]"
proof -
  have "recent_scores three_sevens
      = py_slice_from (recent_scores (demo_model\<lparr>window_size := 50\<rparr>)
          @ map total_score [demo_report (py_float (7 / 10)), demo_report (py_float (7 / 10)),
              demo_report (py_float (7 / 10))])
          (- window_size (demo_model\<lparr>window_size := 50\<rparr>))"
    unfolding three_sevens_def by (rule foldl_update_progress_scores) simp_all
  then show ?thesis
    by (simp add: demo_model_def model_init_def demo_report_def py_slice_from_def seven_tenths)
qed

lemma three_sevens_derived:
  "current_percent three_sevens = mean_scores (recent_scores three_sevens)"
  "unlocked three_sevens = compute_unlocks three_sevens (current_percent three_sevens)"
  "thresholds three_sevens = thresholds demo_model"
  by (simp_all add: three_sevens_def update_progress_derived update_progress_config)

text \<open>
  Two inputs at which the claim fails. With a window size of 0 the slice
  \<open>recent_scores[-0:]\<close> is the whole list: nothing is evicted, and one score remains
  where the bound allows none. With the default window of 50 and the default threshold
  0.70 of \<open>minor_edits\<close>, three scores of 0.7 are all retained; their exact mean is the
  double 0.7 itself, which reaches the threshold; the float sum is rounded, and
  \<open>current_percent\<close> is 0.6999999999999998, which does not: the tier stays locked.
\<close>

theorem update_progress_zero_window_counterexample:
  "window_size (update_progress (demo_model\<lparr>window_size := 0\<rparr>) (demo_report (py_float (9 / 10))))
     = 0
   \<and> recent_scores (update_progress (demo_model\<lparr>window_size := 0\<rparr>)
        (demo_report (py_float (9 / 10)))) = [py_float (9 / 10)]
   \<and> \<not> int (length (recent_scores (update_progress (demo_model\<lparr>window_size := 0\<rparr>)
              (demo_report (py_float (9 / 10))))))
        \<le> window_size (update_progress (demo_model\<lparr>window_size := 0\<rparr>)
              (demo_report (py_float (9 / 10))))
   \<and> window_size three_sevens = 50
   \<and> recent_scores three_sevens
       = [Finite (3152519739159347 / 4503599627370496),
          Finite (3152519739159347 / 4503599627370496),
          Finite (3152519739159347 / 4503599627370496)]
   \<and> sum_list [3152519739159347 / 4503599627370496, 3152519739159347 / 4503599627370496,
        3152519739159347 / 4503599627370496] / 3 = (3152519739159347 / 4503599627370496 :: rat)
   \<and> current_percent three_sevens = Finite (6305039478318693 / 9007199254740992)
   \<and> current_percent three_sevens \<noteq> Finite (3152519739159347 / 4503599627370496)
   \<and> tier_threshold three_sevens ''minor_edits''
       = Some (Finite (3152519739159347 / 4503599627370496))
   \<and> fge (Finite (3152519739159347 / 4503599627370496))
          (Finite (3152519739159347 / 4503599627370496))
   \<and> unlocked three_sevens
       = [(''assist_mode'', True), (''minor_edits'', False),
          (''refactor_lint'', False), (''autonomous_editing'', False)]"
proof -
  have z: "window_size (update_progress (demo_model\<lparr>window_size := 0\<rparr>)
             (demo_report (py_float (9 / 10)))) = 0
     \<and> recent_scores (update_progress (demo_model\<lparr>window_size := 0\<rparr>)
          (demo_report (py_float (9 / 10)))) = [py_float (9 / 10)]"
    by (simp add: update_progress_def Let_def py_slice_from_def demo_model_def model_init_def
        demo_report_def)
  have w: "window_size three_sevens = 50"
    by (simp add: three_sevens_def update_progress_config)
  have c: "current_percent three_sevens = Finite (6305039478318693 / 9007199254740992)"
    by (simp add: three_sevens_derived three_sevens_scores mean_of_sevens)
  have t: "tier_threshold three_sevens ''minor_edits''
       = Some (Finite (3152519739159347 / 4503599627370496))"
    by (simp add: tier_threshold_def three_sevens_derived demo_model_def model_init_def
        dict_get_def seven_tenths)
  have u: "unlocked three_sevens
       = [(''assist_mode'', True), (''minor_edits'', False),
          (''refactor_lint'', False), (''autonomous_editing'', False)]"
    unfolding three_sevens_derived(2) c
    by (simp add: compute_unlocks_def three_sevens_derived(3) demo_model_def model_init_def
        dict_get_def below_seven_tenths)
  from z w c t u three_sevens_scores show ?thesis by simp
qed

section \<open>Properties of the editor engine\<close>

lemma starts_with_Cons1: "starts_with [c] l = (l \<noteq> [] \<and> hd l = c)"
  by (cases l) (auto simp: starts_with_def)

lemma old_matches_Nil: "old_matches old pos []"
  by (simp add: old_matches_def)

lemma old_matches_Cons:
  "old_matches old pos (x # xs) = (pos < length old \<and> old ! pos = x \<and> old_matches old (Suc pos) xs)"
  by (auto simp: old_matches_def less_Suc_eq_0_disj)

lemma old_matches_take: "old_matches old pos xs = (xs = take (length xs) (drop pos old))"
proof (induction xs arbitrary: pos)
  case Nil
  show ?case by (simp add: old_matches_Nil)
next
  case (Cons x xs)
  show ?case
  proof (cases "pos < length old")
    case True
    then have "drop pos old = old ! pos # drop (Suc pos) old"
      by (simp add: Cons_nth_drop_Suc)
    with True show ?thesis by (auto simp: old_matches_Cons Cons.IH)
  next
    case False
    then show ?thesis by (simp add: old_matches_Cons)
  qed
qed

lemma body_stop:
  "\<not> is_body_line l \<Longrightarrow> takeWhile is_body_line (l # ls) = []"
  "\<not> is_body_line l \<Longrightarrow> dropWhile is_body_line (l # ls) = l # ls"
  by simp_all

lemma body_step:
  "is_body_line l \<Longrightarrow> takeWhile is_body_line (l # ls) = l # takeWhile is_body_line ls"
  "is_body_line l \<Longrightarrow> dropWhile is_body_line (l # ls) = dropWhile is_body_line ls"
  by simp_all

lemma sides_Nil: "old_side [] = []" "new_side [] = []" "body_ok []"
  by (simp_all add: old_side_def new_side_def body_ok_def hunk_lines_def)

lemma sides_marker:
  assumes "starts_with no_newline_marker l"
  shows "old_side (l # b) = old_side b" "new_side (l # b) = new_side b"
    "body_ok (l # b) = body_ok b"
  using assms by (simp_all add: old_side_def new_side_def body_ok_def hunk_lines_def)

lemma sides_context:
  assumes "\<not> starts_with no_newline_marker l" "l \<noteq> []" "hd l = CHR '' ''"
  shows "old_side (l # b) = (tl l @ [LF]) # old_side b"
    "new_side (l # b) = (tl l @ [LF]) # new_side b"
    "body_ok (l # b) = body_ok b"
  using assms
  by (simp_all add: old_side_def new_side_def body_ok_def hunk_lines_def starts_with_Cons1
      line_ok_def line_content_def drop_Suc)

lemma sides_removal:
  assumes "\<not> starts_with no_newline_marker l" "l \<noteq> []" "hd l = CHR ''-''"
  shows "old_side (l # b) = (tl l @ [LF]) # old_side b"
    "new_side (l # b) = new_side b"
    "body_ok (l # b) = body_ok b"
  using assms
  by (simp_all add: old_side_def new_side_def body_ok_def hunk_lines_def starts_with_Cons1
      line_ok_def line_content_def drop_Suc)

lemma sides_addition:
  assumes "\<not> starts_with no_newline_marker l" "l \<noteq> []" "hd l = CHR ''+''"
  shows "old_side (l # b) = old_side b"
    "new_side (l # b) = (tl l @ [LF]) # new_side b"
    "body_ok (l # b) = body_ok b"
  using assms
  by (simp_all add: old_side_def new_side_def body_ok_def hunk_lines_def starts_with_Cons1
      line_ok_def line_content_def drop_Suc)

lemma sides_bad:
  assumes "\<not> starts_with no_newline_marker l"
    and "l = [] \<or> (hd l \<noteq> CHR '' '' \<and> hd l \<noteq> CHR ''-'' \<and> hd l \<noteq> CHR ''+'')"
  shows "\<not> body_ok (l # b)"
  using assms
  by (auto simp add: body_ok_def hunk_lines_def starts_with_Cons1 line_ok_def)

text \<open>The inner loop against the declarative reading of a hunk body.\<close>

lemma hunk_body_sound:
  "hunk_body old ls pos out c p = Inr (rest, pos', out', c', p') \<Longrightarrow>
     rest = dropWhile is_body_line ls
     \<and> body_ok (takeWhile is_body_line ls)
     \<and> old_matches old pos (old_side (takeWhile is_body_line ls))
     \<and> pos' = pos + length (old_side (takeWhile is_body_line ls))
     \<and> c' = c + length (old_side (takeWhile is_body_line ls))
     \<and> p' = p + length (new_side (takeWhile is_body_line ls))
     \<and> out' = out @ new_side (takeWhile is_body_line ls)"
proof (induction ls arbitrary: pos out c p)
  case Nil
  then show ?case by (simp add: sides_Nil old_matches_Nil)
next
  case (Cons l ls)
  show ?case
  proof (cases "starts_with ''@@ '' l")
    case True
    then have nb: "\<not> is_body_line l" by (simp add: is_body_line_def)
    from True Cons.prems have "rest = l # ls" "pos' = pos" "out' = out" "c' = c" "p' = p"
      by simp_all
    then show ?thesis
      unfolding body_stop [OF nb] by (simp add: sides_Nil old_matches_Nil)
  next
    case False
    then have b: "is_body_line l" by (simp add: is_body_line_def)
    show ?thesis
    proof (cases "starts_with no_newline_marker l")
      case True
      with False Cons.prems have "hunk_body old ls pos out c p = Inr (rest, pos', out', c', p')"
        by simp
      from Cons.IH [OF this] show ?thesis
        unfolding body_step [OF b] by (simp add: sides_marker [OF True])
    next
      case nm: False
      from False nm Cons.prems have ne: "l \<noteq> []" by (auto split: if_splits)
      consider (ctx) "hd l = CHR '' ''" | (rem) "hd l = CHR ''-''" | (add) "hd l = CHR ''+''"
        using False nm ne Cons.prems by (auto simp: Let_def split: if_splits)
      then show ?thesis
      proof cases
        case ctx
        with False nm ne Cons.prems have ok: "pos < length old" "old ! pos = tl l @ [LF]"
          and rec: "hunk_body old ls (Suc pos) (out @ [tl l @ [LF]]) (Suc c) (Suc p)
                      = Inr (rest, pos', out', c', p')"
          by (auto simp: Let_def split: if_splits)
        from Cons.IH [OF rec] ok show ?thesis
          unfolding body_step [OF b]
          by (simp add: sides_context [OF nm ne ctx] old_matches_Cons)
      next
        case rem
        with False nm ne Cons.prems have ok: "pos < length old" "old ! pos = tl l @ [LF]"
          and rec: "hunk_body old ls (Suc pos) out (Suc c) p
                      = Inr (rest, pos', out', c', p')"
          by (auto simp: Let_def split: if_splits)
        from Cons.IH [OF rec] ok show ?thesis
          unfolding body_step [OF b]
          by (simp add: sides_removal [OF nm ne rem] old_matches_Cons)
      next
        case add
        with False nm ne Cons.prems have
          rec: "hunk_body old ls pos (out @ [tl l @ [LF]]) c (Suc p)
                      = Inr (rest, pos', out', c', p')"
          by (auto simp: Let_def split: if_splits)
        from Cons.IH [OF rec] show ?thesis
          unfolding body_step [OF b]
          by (simp add: sides_addition [OF nm ne add])
      qed
    qed
  qed
qed

lemma hunk_body_complete:
  "body_ok (takeWhile is_body_line ls) \<Longrightarrow>
   old_matches old pos (old_side (takeWhile is_body_line ls)) \<Longrightarrow>
   hunk_body old ls pos out c p =
     Inr (dropWhile is_body_line ls,
          pos + length (old_side (takeWhile is_body_line ls)),
          out @ new_side (takeWhile is_body_line ls),
          c + length (old_side (takeWhile is_body_line ls)),
          p + length (new_side (takeWhile is_body_line ls)))"
proof (induction ls arbitrary: pos out c p)
  case Nil
  then show ?case by (simp add: sides_Nil)
next
  case (Cons l ls)
  show ?case
  proof (cases "starts_with ''@@ '' l")
    case True
    then have nb: "\<not> is_body_line l" by (simp add: is_body_line_def)
    show ?thesis
      unfolding body_stop [OF nb] using True by (simp add: sides_Nil)
  next
    case False
    then have b: "is_body_line l" by (simp add: is_body_line_def)
    note prems = Cons.prems [unfolded body_step [OF b]]
    show ?thesis
    proof (cases "starts_with no_newline_marker l")
      case True
      from prems have "body_ok (takeWhile is_body_line ls)"
        "old_matches old pos (old_side (takeWhile is_body_line ls))"
        by (simp_all add: sides_marker [OF True])
      from Cons.IH [OF this] show ?thesis
        unfolding body_step [OF b] using False True by (simp add: sides_marker [OF True])
    next
      case nm: False
      have good: "l \<noteq> [] \<and> (hd l = CHR '' '' \<or> hd l = CHR ''-'' \<or> hd l = CHR ''+'')"
        using sides_bad [OF nm, of "takeWhile is_body_line ls"] prems(1) by blast
      then have ne: "l \<noteq> []" by simp
      from good consider (ctx) "hd l = CHR '' ''" | (rem) "hd l = CHR ''-''"
        | (add) "hd l = CHR ''+''" by blast
      then show ?thesis
      proof cases
        case ctx
        from prems have "body_ok (takeWhile is_body_line ls)"
          "old_matches old (Suc pos) (old_side (takeWhile is_body_line ls))"
          and ok: "pos < length old" "old ! pos = tl l @ [LF]"
          by (simp_all add: sides_context [OF nm ne ctx] old_matches_Cons)
        from Cons.IH [OF this(1,2)] ok show ?thesis
          unfolding body_step [OF b] using False nm ne ctx
          by (simp add: sides_context [OF nm ne ctx] Let_def)
      next
        case rem
        from prems have "body_ok (takeWhile is_body_line ls)"
          "old_matches old (Suc pos) (old_side (takeWhile is_body_line ls))"
          and ok: "pos < length old" "old ! pos = tl l @ [LF]"
          by (simp_all add: sides_removal [OF nm ne rem] old_matches_Cons)
        from Cons.IH [OF this(1,2)] ok show ?thesis
          unfolding body_step [OF b] using False nm ne rem
          by (simp add: sides_removal [OF nm ne rem] Let_def)
      next
        case add
        from prems have "body_ok (takeWhile is_body_line ls)"
          "old_matches old pos (old_side (takeWhile is_body_line ls))"
          by (simp_all add: sides_addition [OF nm ne add])
        from Cons.IH [OF this(1,2)] show ?thesis
          unfolding body_step [OF b] using False nm ne add
          by (simp add: sides_addition [OF nm ne add] Let_def)
      qed
    qed
  qed
qed

lemma hunk_header_None: "hunk_re_match l = None \<Longrightarrow> hunk_header l = None"
  by (simp add: hunk_header_def)

lemma header_numbers_unlimited:
  "header_numbers 0 (g1, g2, g3, g4) =
     Some (int_of_digits g1, int_of_digits (case g2 of None \<Rightarrow> ''1'' | Some d \<Rightarrow> d),
           int_of_digits g3, int_of_digits (case g4 of None \<Rightarrow> ''1'' | Some d \<Rightarrow> d))"
  by (simp add: header_numbers_def py_int_def)

lemma header_numbers_limit:
  "header_numbers max_digits g = None \<or> header_numbers max_digits g = header_numbers 0 g"
  by (cases g) (auto simp add: header_numbers_def py_int_def split: option.splits)

lemma header_raises_unlimited: "\<not> header_raises 0 l"
  by (auto simp add: header_raises_def header_numbers_unlimited split: option.splits)

lemma apply_hunks_overlap:
  assumes "hunk_re_match l = Some g" and "header_numbers max_digits g = Some (os, oc, ns, nc)"
    and "int os - 1 < int pos"
  shows "apply_hunks max_digits old (l # ls) pos out = Some (Inl OverlappingHunks)"
  using assms by (simp add: apply_hunks.simps)

lemma apply_hunks_step:
  assumes "hunk_re_match l = Some g" and "header_numbers max_digits g = Some (os, oc, ns, nc)"
    and "\<not> int os - 1 < int pos"
  shows "apply_hunks max_digits old (l # ls) pos out =
          (case hunk_body old ls (os - 1) (out @ take (os - 1 - pos) (drop pos old)) 0 0 of
             Inl e \<Rightarrow> Some (Inl e)
           | Inr (rest', old_pos', out', consumed_old, produced_new) \<Rightarrow>
               if oc \<noteq> consumed_old then Some (Inl (OldCountMismatch oc consumed_old))
               else if nc \<noteq> produced_new then Some (Inl (NewCountMismatch nc produced_new))
               else apply_hunks max_digits old rest' old_pos' out')"
  using assms by (simp add: Let_def apply_hunks.simps)

text \<open>
  The outer loop without a limit on the digits, against the declarative reading of the
  hunks.
\<close>

lemma apply_hunks_iff:
  "(apply_hunks 0 old ls pos out = Some (Inr res)) =
     ((\<forall>h \<in> set (split_hunks ls). hunk_consistent old h)
      \<and> hunks_ordered pos (split_hunks ls)
      \<and> res = out @ patched old pos (split_hunks ls))"
proof (induction ls arbitrary: pos out rule: split_hunks.induct)
  case 1
  show ?case by (auto simp: apply_hunks.simps)
next
  case (2 l ls)
  let ?body = "takeWhile is_body_line ls"
  let ?rest = "dropWhile is_body_line ls"
  show ?case
  proof (cases "hunk_re_match l")
    case None
    then show ?thesis by (simp add: hunk_consistent_def hunk_header_None apply_hunks.simps)
  next
    case (Some g)
    obtain g1 g2 g3 g4 where g: "g = (g1, g2, g3, g4)" by (cases g) auto
    define os where "os = int_of_digits g1"
    define oc where "oc = int_of_digits (case g2 of None \<Rightarrow> ''1'' | Some g \<Rightarrow> g)"
    define ns where "ns = int_of_digits g3"
    define nc where "nc = int_of_digits (case g4 of None \<Rightarrow> ''1'' | Some g \<Rightarrow> g)"
    have hh: "hunk_header l = Some (os, oc, ns, nc)"
      by (simp add: hunk_header_def Some g os_def oc_def ns_def nc_def)
    have hn: "header_numbers 0 g = Some (os, oc, ns, nc)"
      by (simp add: header_numbers_unlimited g os_def oc_def ns_def nc_def)
    show ?thesis
    proof (cases "int os - 1 < int pos")
      case True
      then have "\<not> (1 \<le> os \<and> pos \<le> os - 1)" by auto
      then have no: "\<not> hunks_ordered pos (split_hunks (l # ls))" by (auto simp add: hh)
      have "apply_hunks 0 old (l # ls) pos out = Some (Inl OverlappingHunks)"
        by (rule apply_hunks_overlap [OF Some hn True])
      then have "apply_hunks 0 old (l # ls) pos out \<noteq> Some (Inr res)" by simp
      with no show ?thesis by blast
    next
      case ord: False
      then have ord': "1 \<le> os" "pos \<le> os - 1" by auto
      let ?out1 = "out @ take (os - 1 - pos) (drop pos old)"
      have unf: "apply_hunks 0 old (l # ls) pos out =
          (case hunk_body old ls (os - 1) ?out1 0 0 of
             Inl e \<Rightarrow> Some (Inl e)
           | Inr (rest', old_pos', out', consumed_old, produced_new) \<Rightarrow>
               if oc \<noteq> consumed_old then Some (Inl (OldCountMismatch oc consumed_old))
               else if nc \<noteq> produced_new then Some (Inl (NewCountMismatch nc produced_new))
               else apply_hunks 0 old rest' old_pos' out')"
        by (rule apply_hunks_step [OF Some hn ord])
      show ?thesis
      proof (cases "hunk_body old ls (os - 1) ?out1 0 0")
        case (Inl e)
        have "\<not> (body_ok ?body \<and> old_matches old (os - 1) (old_side ?body))"
          using hunk_body_complete [of ls old "os - 1" ?out1 0 0] Inl by auto
        then have "\<not> hunk_consistent old (l, ?body)"
          by (auto simp add: hunk_consistent_def hh)
        moreover have "apply_hunks 0 old (l # ls) pos out = Some (Inl e)"
          unfolding unf Inl by simp
        ultimately show ?thesis by simp
      next
        case (Inr r)
        obtain rest' pos' out' c' p' where r: "r = (rest', pos', out', c', p')"
          by (cases r) auto
        from hunk_body_sound [OF Inr [unfolded r]]
        have s: "rest' = ?rest" "body_ok ?body" "old_matches old (os - 1) (old_side ?body)"
          "pos' = os - 1 + length (old_side ?body)" "c' = length (old_side ?body)"
          "p' = length (new_side ?body)" "out' = ?out1 @ new_side ?body"
          by simp_all
        show ?thesis
        proof (cases "oc = c' \<and> nc = p'")
          case False
          then have "\<not> hunk_consistent old (l, ?body)"
            using s by (auto simp add: hunk_consistent_def hh)
          moreover have "\<exists>e. apply_hunks 0 old (l # ls) pos out = Some (Inl e)"
            unfolding unf Inr r using False by auto
          ultimately show ?thesis by auto
        next
          case True
          then have u: "apply_hunks 0 old (l # ls) pos out
                       = apply_hunks 0 old ?rest (os - 1 + oc) out'"
            unfolding unf Inr r using s by simp
          have c: "hunk_consistent old (l, ?body)"
            using s True by (simp add: hunk_consistent_def hh)
          show ?thesis
            unfolding u "2.IH" using c ord' s(7)
            by (auto simp add: hh)
        qed
      qed
    qed
  qed
qed

lemma body_error_explains_Cons:
  "body_error_explains old b e \<Longrightarrow> body_error_explains old (l # b) e"
  by (cases e) (auto simp: body_error_explains_def hunk_lines_def)

lemma hunk_body_error:
  "hunk_body old ls pos out c p = Inl e \<Longrightarrow>
     body_error_explains old (takeWhile is_body_line ls) e"
proof (induction ls arbitrary: pos out c p)
  case Nil
  then show ?case by simp
next
  case (Cons l ls)
  from Cons.prems have b: "is_body_line l"
    by (auto simp: is_body_line_def split: if_splits)
  then have nb: "\<not> starts_with ''@@ '' l" by (simp add: is_body_line_def)
  show ?case
  proof (cases "starts_with no_newline_marker l")
    case True
    with nb Cons.prems have "hunk_body old ls pos out c p = Inl e" by simp
    from Cons.IH [OF this] show ?thesis
      unfolding body_step [OF b] by (rule body_error_explains_Cons)
  next
    case nm: False
    show ?thesis
    proof (cases "l = []")
      case True
      with nb nm Cons.prems have "e = MalformedEmptyLine" by simp
      with True show ?thesis
        unfolding body_step [OF b] by (simp add: body_error_explains_def)
    next
      case ne: False
      have hl: "l \<in> set (hunk_lines (l # takeWhile is_body_line ls))"
        using nm by (simp add: hunk_lines_def)
      have lc: "line_content l = tl l @ [LF]"
        by (simp add: line_content_def drop_Suc)
      consider (ctx) "hd l = CHR '' ''" | (rem) "hd l = CHR ''-''" | (add) "hd l = CHR ''+''"
        | (bad) "hd l \<noteq> CHR '' ''" "hd l \<noteq> CHR ''-''" "hd l \<noteq> CHR ''+''" by blast
      then show ?thesis
      proof cases
        case ctx
        show ?thesis
        proof (cases "pos \<ge> length old \<or> old ! pos \<noteq> tl l @ [LF]")
          case True
          with nb nm ne ctx Cons.prems
          have "e = ContextMismatch (tl l @ [LF])
                  (if pos < length old then Some (old ! pos) else None)"
            by (auto simp: Let_def)
          with True hl ctx ne lc show ?thesis
            unfolding body_step [OF b]
            by (auto simp: body_error_explains_def starts_with_Cons1)
        next
          case False
          with nb nm ne ctx Cons.prems
          have "hunk_body old ls (pos + 1) (out @ [tl l @ [LF]]) (c + 1) (p + 1) = Inl e"
            by (auto simp: Let_def)
          from Cons.IH [OF this] show ?thesis
            unfolding body_step [OF b] by (rule body_error_explains_Cons)
        qed
      next
        case rem
        show ?thesis
        proof (cases "pos \<ge> length old \<or> old ! pos \<noteq> tl l @ [LF]")
          case True
          with nb nm ne rem Cons.prems
          have "e = RemovalMismatch (tl l @ [LF])
                  (if pos < length old then Some (old ! pos) else None)"
            by (auto simp: Let_def)
          with True hl rem ne lc show ?thesis
            unfolding body_step [OF b]
            by (auto simp: body_error_explains_def starts_with_Cons1)
        next
          case False
          with nb nm ne rem Cons.prems
          have "hunk_body old ls (pos + 1) out (c + 1) p = Inl e"
            by (auto simp: Let_def)
          from Cons.IH [OF this] show ?thesis
            unfolding body_step [OF b] by (rule body_error_explains_Cons)
        qed
      next
        case add
        with nb nm ne Cons.prems
        have "hunk_body old ls pos (out @ [tl l @ [LF]]) c (p + 1) = Inl e"
          by (auto simp: Let_def)
        from Cons.IH [OF this] show ?thesis
          unfolding body_step [OF b] by (rule body_error_explains_Cons)
      next
        case bad
        with nb nm ne Cons.prems have "e = UnknownPrefix (hd l) l"
          by (auto simp: Let_def)
        with hl ne bad show ?thesis
          unfolding body_step [OF b]
          by (auto simp: body_error_explains_def line_ok_def starts_with_Cons1)
      qed
    qed
  qed
qed

lemma error_explains_Cons:
  assumes "error_explains old pos' hs e"
    and "hunks_ordered pos (h # hs) \<Longrightarrow> hunks_ordered pos' hs"
  shows "error_explains old pos (h # hs) e"
  using assms by (cases e) (auto simp: error_explains_def)

lemma apply_hunks_error:
  "apply_hunks 0 old ls pos out = Some (Inl e) \<Longrightarrow> error_explains old pos (split_hunks ls) e"
proof (induction ls arbitrary: pos out rule: split_hunks.induct)
  case 1
  then show ?case by (simp add: apply_hunks.simps)
next
  case (2 l ls)
  let ?body = "takeWhile is_body_line ls"
  let ?rest = "dropWhile is_body_line ls"
  show ?case
  proof (cases "hunk_re_match l")
    case None
    with "2.prems" have "e = InvalidHunkHeader l" by (simp add: apply_hunks.simps)
    with None show ?thesis by (simp add: error_explains_def)
  next
    case (Some g)
    obtain g1 g2 g3 g4 where g: "g = (g1, g2, g3, g4)" by (cases g) auto
    define os where "os = int_of_digits g1"
    define oc where "oc = int_of_digits (case g2 of None \<Rightarrow> ''1'' | Some g \<Rightarrow> g)"
    define ns where "ns = int_of_digits g3"
    define nc where "nc = int_of_digits (case g4 of None \<Rightarrow> ''1'' | Some g \<Rightarrow> g)"
    have hh: "hunk_header l = Some (os, oc, ns, nc)"
      by (simp add: hunk_header_def Some g os_def oc_def ns_def nc_def)
    have hn: "header_numbers 0 g = Some (os, oc, ns, nc)"
      by (simp add: header_numbers_unlimited g os_def oc_def ns_def nc_def)
    show ?thesis
    proof (cases "int os - 1 < int pos")
      case True
      then have "\<not> (1 \<le> os \<and> pos \<le> os - 1)" by auto
      then have no: "\<not> hunks_ordered pos (split_hunks (l # ls))" by (auto simp add: hh)
      have "apply_hunks 0 old (l # ls) pos out = Some (Inl OverlappingHunks)"
        by (rule apply_hunks_overlap [OF Some hn True])
      with "2.prems" have "e = OverlappingHunks" by simp
      with no show ?thesis by (simp add: error_explains_def)
    next
      case ord: False
      let ?out1 = "out @ take (os - 1 - pos) (drop pos old)"
      have unf: "apply_hunks 0 old (l # ls) pos out =
          (case hunk_body old ls (os - 1) ?out1 0 0 of
             Inl e \<Rightarrow> Some (Inl e)
           | Inr (rest', old_pos', out', consumed_old, produced_new) \<Rightarrow>
               if oc \<noteq> consumed_old then Some (Inl (OldCountMismatch oc consumed_old))
               else if nc \<noteq> produced_new then Some (Inl (NewCountMismatch nc produced_new))
               else apply_hunks 0 old rest' old_pos' out')"
        by (rule apply_hunks_step [OF Some hn ord])
      show ?thesis
      proof (cases "hunk_body old ls (os - 1) ?out1 0 0")
        case (Inl e')
        have "apply_hunks 0 old (l # ls) pos out = Some (Inl e')"
          unfolding unf Inl by simp
        with "2.prems" have ee: "e' = e" by simp
        from hunk_body_error [OF Inl] have be: "body_error_explains old ?body e"
          by (simp add: ee)
        then show ?thesis
          by (cases e) (auto simp: error_explains_def body_error_explains_def)
      next
        case (Inr r)
        obtain rest' pos' out' c' p' where r: "r = (rest', pos', out', c', p')"
          by (cases r) auto
        from hunk_body_sound [OF Inr [unfolded r]]
        have s: "rest' = ?rest" "pos' = os - 1 + length (old_side ?body)"
          "c' = length (old_side ?body)" "p' = length (new_side ?body)"
          by simp_all
        show ?thesis
        proof (cases "oc \<noteq> c'")
          case True
          have "apply_hunks 0 old (l # ls) pos out = Some (Inl (OldCountMismatch oc c'))"
            unfolding unf Inr r using True by simp
          with "2.prems" have "e = OldCountMismatch oc c'" by simp
          with True s hh show ?thesis by (simp add: error_explains_def)
        next
          case oc: False
          show ?thesis
          proof (cases "nc \<noteq> p'")
            case True
            have "apply_hunks 0 old (l # ls) pos out = Some (Inl (NewCountMismatch nc p'))"
              unfolding unf Inr r using oc True by simp
            with "2.prems" have "e = NewCountMismatch nc p'" by simp
            with True s hh show ?thesis by (simp add: error_explains_def)
          next
            case False
            have "apply_hunks 0 old (l # ls) pos out
                    = apply_hunks 0 old ?rest (os - 1 + oc) out'"
              unfolding unf Inr r using oc False s by simp
            with "2.prems" have "apply_hunks 0 old ?rest (os - 1 + oc) out' = Some (Inl e)"
              by simp
            from "2.IH" [OF this]
            have "error_explains old (os - 1 + oc) (split_hunks ?rest) e" .
            then have "error_explains old pos ((l, ?body) # split_hunks ?rest) e"
            proof (rule error_explains_Cons)
              assume "hunks_ordered pos ((l, ?body) # split_hunks ?rest)"
              then have "case_option False (\<lambda>(old_start, old_count, new_start, new_count).
                  1 \<le> old_start \<and> pos \<le> old_start - 1
                  \<and> hunks_ordered (old_start - 1 + old_count) (split_hunks ?rest))
                  (hunk_header l)"
                by (simp only: hunks_ordered.simps fst_conv)
              then show "hunks_ordered (os - 1 + oc) (split_hunks ?rest)"
                unfolding hh by (simp only: option.case prod.case)
            qed
            then show ?thesis by simp
          qed
        qed
      qed
    qed
  qed
qed

text \<open>
  The limit on the digits changes one thing: a run that meets a header with too long a
  number raises there, and a run that meets none is the run without a limit.
\<close>

lemma apply_hunks_limit:
  "apply_hunks max_digits old ls pos out = None
   \<or> apply_hunks max_digits old ls pos out = apply_hunks 0 old ls pos out"
proof (induction ls arbitrary: pos out rule: split_hunks.induct)
  case 1
  show ?case by (simp add: apply_hunks.simps)
next
  case (2 l ls)
  let ?rest = "dropWhile is_body_line ls"
  show ?case
  proof (cases "hunk_re_match l")
    case None
    then show ?thesis by (simp add: apply_hunks.simps)
  next
    case (Some g)
    show ?thesis
    proof (cases "header_numbers max_digits g")
      case None
      then show ?thesis by (simp add: Some apply_hunks.simps)
    next
      case hn: (Some x)
      then have h0: "header_numbers 0 g = Some x"
        using header_numbers_limit [of max_digits g] by simp
      obtain os oc ns nc where x: "x = (os, oc, ns, nc)" by (cases x) auto
      let ?out1 = "out @ take (os - 1 - pos) (drop pos old)"
      show ?thesis
      proof (cases "int os - 1 < int pos")
        case True
        show ?thesis
          unfolding apply_hunks_overlap [OF Some hn [unfolded x] True]
            apply_hunks_overlap [OF Some h0 [unfolded x] True] by simp
      next
        case ord: False
        note u1 = apply_hunks_step [OF Some hn [unfolded x] ord, of old ls out]
        note u0 = apply_hunks_step [OF Some h0 [unfolded x] ord, of old ls out]
        show ?thesis
        proof (cases "hunk_body old ls (os - 1) ?out1 0 0")
          case (Inl e)
          show ?thesis unfolding u1 u0 Inl by simp
        next
          case (Inr r)
          obtain rest' pos' out' c' p' where r: "r = (rest', pos', out', c', p')"
            by (cases r) auto
          from hunk_body_sound [OF Inr [unfolded r]] have s: "rest' = ?rest" by simp
          from "2.IH" [of pos' out'] show ?thesis
            unfolding u1 u0 Inr r s by auto
        qed
      qed
    qed
  qed
qed

lemma apply_hunks_raises:
  "apply_hunks max_digits old ls pos out = None \<Longrightarrow>
     \<exists>h \<in> set (split_hunks ls). header_raises max_digits (fst h)"
proof (induction ls arbitrary: pos out rule: split_hunks.induct)
  case 1
  then show ?case by (simp add: apply_hunks.simps)
next
  case (2 l ls)
  let ?rest = "dropWhile is_body_line ls"
  show ?case
  proof (cases "hunk_re_match l")
    case None
    with "2.prems" show ?thesis by (simp add: apply_hunks.simps)
  next
    case (Some g)
    show ?thesis
    proof (cases "header_numbers max_digits g")
      case None
      with Some show ?thesis by (simp add: header_raises_def)
    next
      case hn: (Some x)
      obtain os oc ns nc where x: "x = (os, oc, ns, nc)" by (cases x) auto
      let ?out1 = "out @ take (os - 1 - pos) (drop pos old)"
      show ?thesis
      proof (cases "int os - 1 < int pos")
        case True
        with "2.prems" show ?thesis
          by (simp add: apply_hunks_overlap [OF Some hn [unfolded x] True])
      next
        case ord: False
        note u = apply_hunks_step [OF Some hn [unfolded x] ord, of old ls out]
        show ?thesis
        proof (cases "hunk_body old ls (os - 1) ?out1 0 0")
          case (Inl e)
          from "2.prems" show ?thesis unfolding u Inl by simp
        next
          case (Inr r)
          obtain rest' pos' out' c' p' where r: "r = (rest', pos', out', c', p')"
            by (cases r) auto
          from hunk_body_sound [OF Inr [unfolded r]] have s: "rest' = ?rest" by simp
          from "2.prems" have "apply_hunks max_digits old ?rest pos' out' = None"
            unfolding u Inr r s by (simp split: if_splits)
          from "2.IH" [OF this] show ?thesis by simp
        qed
      qed
    qed
  qed
qed

lemma apply_hunks_returns:
  assumes "\<forall>h \<in> set (split_hunks ls). \<not> header_raises max_digits (fst h)"
  shows "apply_hunks max_digits old ls pos out = apply_hunks 0 old ls pos out"
    and "apply_hunks max_digits old ls pos out \<noteq> None"
proof -
  show "apply_hunks max_digits old ls pos out \<noteq> None"
    using assms apply_hunks_raises [of max_digits old ls pos out] by blast
  then show "apply_hunks max_digits old ls pos out = apply_hunks 0 old ls pos out"
    using apply_hunks_limit [of max_digits old ls pos out] by auto
qed

lemma apply_hunks_Inr:
  assumes "apply_hunks max_digits old ls pos out = Some (Inr res)"
  shows "(\<forall>h \<in> set (split_hunks ls). hunk_consistent old h)
    \<and> hunks_ordered pos (split_hunks ls) \<and> res = out @ patched old pos (split_hunks ls)"
proof -
  from assms apply_hunks_limit [of max_digits old ls pos out]
  have "apply_hunks 0 old ls pos out = Some (Inr res)" by simp
  then show ?thesis by (simp add: apply_hunks_iff)
qed

lemma apply_hunks_Inl:
  assumes "apply_hunks max_digits old ls pos out = Some (Inl e)"
  shows "\<not> ((\<forall>h \<in> set (split_hunks ls). hunk_consistent old h)
            \<and> hunks_ordered pos (split_hunks ls))"
    and "error_explains old pos (split_hunks ls) e"
proof -
  from assms apply_hunks_limit [of max_digits old ls pos out]
  have u: "apply_hunks 0 old ls pos out = Some (Inl e)" by simp
  then show "error_explains old pos (split_hunks ls) e" by (rule apply_hunks_error)
  from u have "apply_hunks 0 old ls pos out \<noteq> Some (Inr (out @ patched old pos (split_hunks ls)))"
    by simp
  then show "\<not> ((\<forall>h \<in> set (split_hunks ls). hunk_consistent old h)
            \<and> hunks_ordered pos (split_hunks ls))"
    by (simp add: apply_hunks_iff)
qed

text \<open>
  What \<open>apply_unified_diff\<close> returns, when it returns: the diff is applied wholly or not
  at all. The result carries \<open>new_text\<close> exactly when \<open>ok\<close> is true and an error exactly
  when it is false. It is \<open>ok\<close> exactly when the diff is blank, or every hunk is
  consistent with the old text (its header parses, its lines have one of the three
  prefixes, each context and removal line equals the old line at its position, and the
  numbers of old and new lines are the header's counts) and the hunks are in order. When
  \<open>ok\<close>, \<open>new_text\<close> is the old text (blank diff) or the whole patched text. When not,
  the error names a check that failed on a line or hunk of the diff. The call raises only
  on a diff with a header number of too many digits, and it returns on every diff that has
  none.
\<close>

lemma apply_unified_diff_returned:
  assumes "apply_unified_diff max_digits old_text diff_text = Some r"
  shows "diff r = diff_text"
    and "ok r = (new_text r \<noteq> None)"
    and "ok r = (error r = None)"
    and "ok r = (py_strip diff_text = []
          \<or> ((\<forall>h \<in> set (diff_hunks diff_text).
                 hunk_consistent (py_splitlines True old_text) h)
              \<and> hunks_ordered 0 (diff_hunks diff_text)))"
    and "ok r \<Longrightarrow> new_text r
          = Some (if py_strip diff_text = [] then old_text
                  else concat (patched (py_splitlines True old_text) 0 (diff_hunks diff_text)))"
    and "error r = Some e \<Longrightarrow>
          error_explains (py_splitlines True old_text) 0 (diff_hunks diff_text) e"
proof -
  let ?old = "py_splitlines True old_text"
  let ?ls = "skip_header ''+++ '' (skip_header ''--- '' (py_splitlines False diff_text))"
  have hs: "diff_hunks diff_text = split_hunks ?ls" by (simp add: diff_hunks_def)
  have "diff r = diff_text \<and> ok r = (new_text r \<noteq> None) \<and> ok r = (error r = None)
    \<and> ok r = (py_strip diff_text = []
          \<or> ((\<forall>h \<in> set (diff_hunks diff_text). hunk_consistent ?old h)
              \<and> hunks_ordered 0 (diff_hunks diff_text)))
    \<and> (ok r \<longrightarrow> new_text r
          = Some (if py_strip diff_text = [] then old_text
                  else concat (patched ?old 0 (diff_hunks diff_text))))
    \<and> (error r = Some e \<longrightarrow> error_explains ?old 0 (diff_hunks diff_text) e)"
  proof (cases "py_strip diff_text = []")
    case True
    with assms show ?thesis by (auto simp add: apply_unified_diff_def)
  next
    case nb: False
    show ?thesis
    proof (cases "apply_hunks max_digits ?old ?ls 0 []")
      case None
      with assms nb show ?thesis by (simp add: apply_unified_diff_def Let_def)
    next
      case (Some x)
      show ?thesis
      proof (cases x)
        case (Inl e')
        with Some assms nb have r: "r = \<lparr> ok = False, diff = diff_text, new_text = None,
            error = Some e' \<rparr>"
          by (simp add: apply_unified_diff_def Let_def)
        from apply_hunks_Inl [OF Some [unfolded Inl]] show ?thesis
          using nb unfolding r hs by auto
      next
        case (Inr res)
        with Some assms nb have r: "r = \<lparr> ok = True, diff = diff_text,
            new_text = Some (concat res), error = None \<rparr>"
          by (simp add: apply_unified_diff_def Let_def)
        from apply_hunks_Inr [OF Some [unfolded Inr]] show ?thesis
          using nb unfolding r hs by simp
      qed
    qed
  qed
  then show "diff r = diff_text" and "ok r = (new_text r \<noteq> None)" and "ok r = (error r = None)"
    and "ok r = (py_strip diff_text = []
          \<or> ((\<forall>h \<in> set (diff_hunks diff_text).
                 hunk_consistent (py_splitlines True old_text) h)
              \<and> hunks_ordered 0 (diff_hunks diff_text)))"
    and "ok r \<Longrightarrow> new_text r
          = Some (if py_strip diff_text = [] then old_text
                  else concat (patched (py_splitlines True old_text) 0 (diff_hunks diff_text)))"
    and "error r = Some e \<Longrightarrow>
          error_explains (py_splitlines True old_text) 0 (diff_hunks diff_text) e"
    by auto
qed

lemma apply_unified_diff_raises:
  "apply_unified_diff max_digits old_text diff_text = None \<Longrightarrow>
     py_strip diff_text \<noteq> []
     \<and> (\<exists>h \<in> set (diff_hunks diff_text). header_raises max_digits (fst h))"
  using apply_hunks_raises [of max_digits "py_splitlines True old_text"
      "skip_header ''+++ '' (skip_header ''--- '' (py_splitlines False diff_text))" 0 "[]"]
  by (auto simp add: apply_unified_diff_def diff_hunks_def Let_def
      split: if_splits option.splits sum.splits)

lemma good_diff_applies:
  "apply_unified_diff 4300 test_old good_diff
     = Some \<lparr> ok = True, diff = good_diff, new_text = Some test_new, error = None \<rparr>"
  by code_simp

lemma good_diff_not_blank: "py_strip good_diff \<noteq> []"
  by code_simp

lemma in_split_hunks:
  "l \<in> set ls \<Longrightarrow> \<exists>h \<in> set (split_hunks ls). l = fst h \<or> l \<in> set (snd h)"
proof (induction ls rule: split_hunks.induct)
  case 1
  then show ?case by simp
next
  case (2 x ls)
  have "set ls = set (takeWhile is_body_line ls) \<union> set (dropWhile is_body_line ls)"
    by (metis set_append takeWhile_dropWhile_id)
  with "2.prems" consider "l = x" | "l \<in> set (takeWhile is_body_line ls)"
    | "l \<in> set (dropWhile is_body_line ls)" by auto
  then show ?case
  proof cases
    case 3
    from "2.IH" [OF this] show ?thesis by auto
  qed auto
qed

lemma empty_line_inconsistent:
  "[] = fst h \<or> [] \<in> set (snd h) \<Longrightarrow> \<not> hunk_consistent old h"
proof (erule disjE)
  assume "[] = fst h"
  then have "hunk_header (fst h) = None"
    by (simp add: hunk_header_def hunk_re_match_def starts_with_def)
  then show ?thesis by (simp add: hunk_consistent_def)
next
  assume "[] \<in> set (snd h)"
  then have "[] \<in> set (hunk_lines (snd h))"
    by (simp add: hunk_lines_def starts_with_def no_newline_marker_def)
  moreover have "\<not> line_ok []" by (simp add: line_ok_def starts_with_def)
  ultimately have "\<not> body_ok (snd h)" unfolding body_ok_def by blast
  then show ?thesis by (simp add: hunk_consistent_def split: option.splits)
qed

lemma skip_header_keeps_empty:
  "p \<noteq> [] \<Longrightarrow> [] \<in> set ls \<Longrightarrow> [] \<in> set (skip_header p ls)"
  by (cases ls) (auto simp add: skip_header_def starts_with_def)

lemma diff_with_empty_line_refused:
  assumes "py_strip diff_text \<noteq> []" and "[] \<in> set (py_splitlines False diff_text)"
  shows "\<not> (\<exists>r. apply_unified_diff max_digits old_text diff_text = Some r \<and> ok r)"
proof
  assume "\<exists>r. apply_unified_diff max_digits old_text diff_text = Some r \<and> ok r"
  then obtain r where r: "apply_unified_diff max_digits old_text diff_text = Some r" "ok r" by blast
  let ?ls = "skip_header ''+++ '' (skip_header ''--- '' (py_splitlines False diff_text))"
  have "[] \<in> set ?ls" using assms(2) by (simp add: skip_header_keeps_empty)
  from in_split_hunks [OF this] obtain h where
    h: "h \<in> set (split_hunks ?ls)" "[] = fst h \<or> [] \<in> set (snd h)" by blast
  from h(2) have "\<not> hunk_consistent (py_splitlines True old_text) h"
    by (rule empty_line_inconsistent)
  with h(1) have "\<not> (\<forall>h \<in> set (diff_hunks diff_text).
      hunk_consistent (py_splitlines True old_text) h)"
    by (auto simp add: diff_hunks_def)
  with apply_unified_diff_returned(4) [OF r(1)] r(2) assms(1) show False by simp
qed

lemma is_linebreak_LF: "is_linebreak LF" and LF_not_CR: "LF \<noteq> CR"
  by (simp_all add: is_linebreak_def LF_def CR_def)

lemma splitlines_step:
  assumes "\<forall>x \<in> set a. \<not> is_linebreak x" and "is_linebreak c"
  shows "py_splitlines False (a @ c # r) =
     (case r of
        [] \<Rightarrow> [a]
      | d # r' \<Rightarrow> if c = CR \<and> d = LF then a # py_splitlines False r'
                  else a # py_splitlines False r)"
proof -
  have t: "takeWhile (\<lambda>c. \<not> is_linebreak c) (a @ c # r) = a"
    "dropWhile (\<lambda>c. \<not> is_linebreak c) (a @ c # r) = c # r"
    using assms by (simp_all add: takeWhile_append2 dropWhile_append2)
  show ?thesis
    apply (subst py_splitlines.simps)
    apply (simp only: t Let_def)
    apply (simp split: list.splits)
    done
qed

lemma splitlines_LF: "[] \<in> set (py_splitlines False (LF # v))"
  using splitlines_step [of "[]" LF v]
  by (simp add: is_linebreak_LF LF_not_CR split: list.splits)

lemma splitlines_double_LF:
  "[] \<in> set (py_splitlines False (u @ LF # LF # v))"
proof (induction "length u" arbitrary: u rule: less_induct)
  case less
  show ?case
  proof (cases "\<forall>c \<in> set u. \<not> is_linebreak c")
    case True
    from splitlines_step [OF True is_linebreak_LF, of "LF # v"]
    have "py_splitlines False (u @ LF # LF # v) = u # py_splitlines False (LF # v)"
      by (simp add: LF_not_CR)
    then show ?thesis using splitlines_LF [of v] by simp
  next
    case False
    then obtain a c b where u: "u = a @ c # b"
      and a: "\<forall>x \<in> set a. \<not> is_linebreak x" and c: "is_linebreak c"
      by (metis split_list_first_prop)
    have s: "u @ LF # LF # v = a @ c # (b @ LF # LF # v)" by (simp add: u)
    show ?thesis
    proof (cases b)
      case Nil
      from splitlines_step [OF a c, of "LF # LF # v"]
      have "py_splitlines False (u @ LF # LF # v)
              = a # py_splitlines False (if c = CR then LF # v else LF # LF # v)"
        unfolding s Nil by simp
      moreover have "[] \<in> set (py_splitlines False (LF # LF # v))"
        by (rule splitlines_LF)
      ultimately show ?thesis using splitlines_LF [of v] by simp
    next
      case (Cons d b')
      from splitlines_step [OF a c, of "d # b' @ LF # LF # v"]
      have "py_splitlines False (u @ LF # LF # v)
              = a # py_splitlines False (if c = CR \<and> d = LF then b' @ LF # LF # v
                                          else b @ LF # LF # v)"
        unfolding s Cons by simp
      moreover have "[] \<in> set (py_splitlines False (b' @ LF # LF # v))"
        by (rule less) (simp add: u Cons)
      moreover have "[] \<in> set (py_splitlines False (b @ LF # LF # v))"
        by (rule less) (simp add: u)
      ultimately show ?thesis by simp
    qed
  qed
qed

lemma join_contains:
  "x \<in> set dl \<Longrightarrow> \<exists>u v. py_join sep dl @ sep = u @ x @ sep @ v"
proof (induction dl)
  case Nil
  then show ?case by simp
next
  case (Cons y dl)
  have j: "py_join sep (y # dl) @ sep = y @ sep @ (if dl = [] then [] else py_join sep dl @ sep)"
    by (cases dl) (simp_all add: py_join_def)
  show ?case
  proof (cases "x = y")
    case True
    show ?thesis unfolding j True by (rule exI [of _ "[]"]) auto
  next
    case False
    with Cons.prems have x: "x \<in> set dl" and ne: "dl \<noteq> []" by auto
    from Cons.IH [OF x] obtain u v where "py_join sep dl @ sep = u @ x @ sep @ v" by blast
    then have "py_join sep (y # dl) @ sep = (y @ sep @ u) @ x @ sep @ v"
      unfolding j using ne by simp
    then show ?thesis by blast
  qed
qed

lemma strip_not_blank:
  assumes "c \<in> set s" and "\<not> py_isspace c"
  shows "py_strip s \<noteq> []"
proof
  assume "py_strip s = []"
  then have a: "\<forall>x \<in> set (dropWhile py_isspace s). py_isspace x"
    by (simp add: py_strip_def dropWhile_eq_Nil_conv)
  have "dropWhile py_isspace s \<noteq> []"
    using assms by (auto simp add: dropWhile_eq_Nil_conv)
  then have "hd (dropWhile py_isspace s) \<in> set (dropWhile py_isspace s)"
    and "\<not> py_isspace (hd (dropWhile py_isspace s))"
    by (simp_all add: hd_dropWhile)
  with a show False by blast
qed

lemma int_of_ones:
  "0 < n \<Longrightarrow> 0 < int_of_digits (replicate n CHR ''1'')"
proof -
  have "a \<le> foldl (\<lambda>acc c. 10 * acc + (of_char c - 48)) a (replicate n CHR ''1'')"
    for a :: nat and n
  proof (induction n arbitrary: a)
    case 0
    show ?case by simp
  next
    case (Suc n)
    have "a \<le> 10 * a + 1" by simp
    also have "\<dots> \<le> foldl (\<lambda>acc c. 10 * acc + (of_char c - 48)) (10 * a + 1)
        (replicate n CHR ''1'')"
      by (rule Suc.IH)
    finally show ?case by simp
  qed
  from this [of 1 "n - 1"] show "0 < int_of_digits (replicate n CHR ''1'')" if "0 < n"
    using that by (cases n) (simp_all add: int_of_digits_def)
qed

lemma numbered_header_match:
  assumes "0 < n"
  shows "hunk_re_match (numbered_header n) = Some (replicate n CHR ''1'', None, ''1'', None)"
proof -
  have "takeWhile is_digit (replicate n CHR ''1'' @ '' +1 @@'')
          = replicate n CHR ''1'' @ takeWhile is_digit '' +1 @@''"
    by (rule takeWhile_append2) (simp add: is_digit_def)
  then have t: "takeWhile is_digit (replicate n CHR ''1'' @ '' +1 @@'') = replicate n CHR ''1''"
    by (simp add: is_digit_def)
  have "dropWhile is_digit (replicate n CHR ''1'' @ '' +1 @@'')
          = dropWhile is_digit '' +1 @@''"
    by (rule dropWhile_append2) (simp add: is_digit_def)
  then have d: "dropWhile is_digit (replicate n CHR ''1'' @ '' +1 @@'') = '' +1 @@''"
    by (simp add: is_digit_def)
  have ne: "replicate n CHR ''1'' \<noteq> []" using assms by simp
  show ?thesis
    using assms
    by (simp add: numbered_header_def hunk_re_match_def starts_with_def t d opt_count_def ne
        is_digit_def Let_def)
qed

lemma numbered_header_plain:
  "\<forall>x \<in> set (numbered_header n). \<not> is_linebreak x"
  "\<not> starts_with ''--- '' (numbered_header n)"
  "\<not> starts_with ''+++ '' (numbered_header n)"
  "CHR ''@'' \<in> set (numbered_header n)"
  by (auto simp add: numbered_header_def is_linebreak_def starts_with_def)

lemma numbered_diff_lines: "py_splitlines False (numbered_diff n) = [numbered_header n]"
  using splitlines_step [OF numbered_header_plain(1) is_linebreak_LF, of n "[]"]
  by (simp add: numbered_diff_def)

lemma numbered_diff_hunks: "diff_hunks (numbered_diff n) = [(numbered_header n, [])]"
  by (simp add: diff_hunks_def numbered_diff_lines skip_header_def numbered_header_plain)

lemma numbered_diff_not_blank: "py_strip (numbered_diff n) \<noteq> []"
  by (rule strip_not_blank [of "CHR ''@''"])
     (simp_all add: numbered_diff_def numbered_header_plain py_isspace_def)

lemma numbered_diff_raises:
  assumes "0 < max_digits" and "max_digits < n"
  shows "apply_unified_diff max_digits old_text (numbered_diff n) = None"
proof -
  have n: "0 < n" using assms by simp
  have "header_numbers max_digits (replicate n CHR ''1'', None, ''1'', None) = None"
    using assms by (simp add: header_numbers_def py_int_def)
  then have "apply_hunks max_digits (py_splitlines True old_text) [numbered_header n] 0 [] = None"
    by (simp add: apply_hunks.simps numbered_header_match [OF n])
  then show ?thesis
    by (simp add: apply_unified_diff_def numbered_diff_not_blank numbered_diff_lines
        skip_header_def numbered_header_plain)
qed

lemma numbered_diff_refused:
  assumes "0 < n" and "max_digits = 0 \<or> n \<le> max_digits"
  shows "apply_unified_diff max_digits [] (numbered_diff n)
           = Some \<lparr> ok = False, diff = numbered_diff n, new_text = None,
                    error = Some (OldCountMismatch 1 0) \<rparr>"
proof -
  have h: "header_numbers max_digits (replicate n CHR ''1'', None, ''1'', None)
             = Some (int_of_digits (replicate n CHR ''1''), 1, 1, 1)"
    using assms by (auto simp add: header_numbers_def py_int_def int_of_digits_def)
  have o: "py_splitlines True [] = []" by (simp add: py_splitlines.simps)
  have p: "\<not> int (int_of_digits (replicate n CHR ''1'')) - 1 < int 0"
    using int_of_ones [OF assms(1)] by simp
  have "apply_hunks max_digits [] [numbered_header n] 0 [] = Some (Inl (OldCountMismatch 1 0))"
    unfolding apply_hunks_step [OF numbered_header_match [OF assms(1)] h p] by simp
  then show ?thesis
    by (simp add: apply_unified_diff_def numbered_diff_not_blank numbered_diff_lines o
        skip_header_def numbered_header_plain)
qed

text \<open>
  C4, at a diff of one header line whose old start has 4301 digits, under the
  interpreter's default limit of 4300 digits. The header declares one old and one new
  line and there is no body, so the hunk counts do not match: with a number of 4300
  digits the call returns \<open>ok = False\<close>, no new text and the error of the old line count,
  as the claim says. With one digit more, \<open>int\<close> raises \<open>ValueError\<close> on line 64 and the
  call returns no result at all.
\<close>

theorem long_header_number_raises:
  "apply_unified_diff 4300 [] (numbered_diff 4301) = None
   \<and> apply_unified_diff 4300 [] (numbered_diff 4300)
       = Some \<lparr> ok = False, diff = numbered_diff 4300, new_text = None,
                error = Some (OldCountMismatch 1 0) \<rparr>
   \<and> diff_hunks (numbered_diff 4301) = [(numbered_header 4301, [])]
   \<and> hunk_re_match (numbered_header 4301) = Some (replicate 4301 CHR ''1'', None, ''1'', None)
   \<and> length (replicate 4301 CHR ''1'') = 4301"
  by (simp add: numbered_diff_raises numbered_diff_refused numbered_header_match
      numbered_diff_hunks)

text \<open>
  C3. \<open>difflib.unified_diff\<close> is a parameter \<open>ud\<close> here. Called with \<open>lineterm=""\<close> on
  lines that keep their newlines, it returns the header lines without a newline and the
  body lines with the newline they had. \<open>generate_unified_diff\<close> joins the lines with a
  newline, so a line that ends in a newline is followed by an empty line, and
  \<open>apply_unified_diff\<close> refuses a diff that has one, whatever the text it is applied to:
  the round trip fails whenever a line that difflib returns ends in a newline. The call
  never returns \<open>ok\<close>; and it returns, with \<open>ok = False\<close> and no new text, whenever no
  header of the diff has a number too long for \<open>int\<close>.
\<close>

theorem generated_diff_refused:
  assumes "x \<in> set (ud (py_splitlines True old_text) (py_splitlines True new_txt)
                      ''a/code.py'' ''b/code.py'')"
    and "x \<noteq> []" and "last x = LF"
    and "py_strip (generate_unified_diff ud old_text new_txt) \<noteq> []"
  shows "\<not> (\<exists>r. apply_unified_diff max_digits base_text
                  (generate_unified_diff ud old_text new_txt) = Some r \<and> ok r)
    \<and> ((\<forall>h \<in> set (diff_hunks (generate_unified_diff ud old_text new_txt)).
           \<not> header_raises max_digits (fst h))
        \<longrightarrow> (\<exists>r. apply_unified_diff max_digits base_text
                    (generate_unified_diff ud old_text new_txt) = Some r
                  \<and> \<not> ok r \<and> new_text r = None))"
proof -
  let ?dl = "ud (py_splitlines True old_text) (py_splitlines True new_txt)
               ''a/code.py'' ''b/code.py''"
  let ?g = "generate_unified_diff ud old_text new_txt"
  have ne: "?dl \<noteq> []" using assms(1) by auto
  then have g: "?g = py_join [LF] ?dl @ [LF]"
    by (simp add: generate_unified_diff_def Let_def)
  from join_contains [OF assms(1), of "[LF]"] obtain u v where
    "py_join [LF] ?dl @ [LF] = u @ x @ [LF] @ v" by blast
  moreover have "x = butlast x @ [LF]" using assms(2,3) by (metis append_butlast_last_id)
  ultimately have "py_join [LF] ?dl @ [LF] = (u @ butlast x) @ LF # LF # v"
    by (metis append.assoc append_Cons append_Nil)
  then have "[] \<in> set (py_splitlines False ?g)"
    unfolding g using splitlines_double_LF [of "u @ butlast x" v] by simp
  with assms(4) have no: "\<not> (\<exists>r. apply_unified_diff max_digits base_text ?g = Some r \<and> ok r)"
    by (rule diff_with_empty_line_refused)
  have "\<exists>r. apply_unified_diff max_digits base_text ?g = Some r \<and> \<not> ok r \<and> new_text r = None"
    if "\<forall>h \<in> set (diff_hunks ?g). \<not> header_raises max_digits (fst h)"
  proof -
    from that apply_unified_diff_raises [of max_digits base_text ?g]
    obtain r where r: "apply_unified_diff max_digits base_text ?g = Some r" by blast
    with no have "\<not> ok r" by blast
    with apply_unified_diff_returned(2) [OF r] r show ?thesis by auto
  qed
  with no show ?thesis by blast
qed

lemma test_roundtrip_result:
  "apply_unified_diff 4300 test_old (generate_unified_diff test_difflib test_old test_new)
     = Some \<lparr> ok = False, diff = generate_unified_diff test_difflib test_old test_new,
         new_text = None, error = Some MalformedEmptyLine \<rparr>
   \<and> generate_unified_diff test_difflib test_old test_new
     = ''--- a/code.py'' @ [LF] @ ''+++ b/code.py'' @ [LF] @ ''@@ -1,2 +1,2 @@'' @ [LF]
       @ ''-def f():'' @ [LF, LF] @ ''-    return 1'' @ [LF, LF]
       @ ''+def f(x):'' @ [LF, LF] @ ''+    return x'' @ [LF, LF]"
  by code_simp

lemma test_generated_not_blank:
  "py_strip (generate_unified_diff test_difflib test_old test_new) \<noteq> []"
  by code_simp

text \<open>
  At the input of the repository's own test, \<open>old = "def f():\n    return 1\n"\<close> and
  \<open>new = "def f(x):\n    return x\n"\<close>, difflib returns the seven lines of
  \<open>test_difflib\<close>; the generated diff has an empty line after each body line, and
  applying it to \<open>old\<close> returns \<open>ok = False\<close> with the error of a malformed empty line
  and no new text, where the test expects \<open>ok\<close> and the new text.
\<close>

theorem generated_diff_refused_witness:
  "''-def f():'' @ [LF] \<in> set (test_difflib (py_splitlines True test_old)
       (py_splitlines True test_new) ''a/code.py'' ''b/code.py'')
   \<and> last (''-def f():'' @ [LF]) = LF
   \<and> py_strip (generate_unified_diff test_difflib test_old test_new) \<noteq> []
   \<and> \<not> (\<exists>r. apply_unified_diff 4300 test_old
                 (generate_unified_diff test_difflib test_old test_new) = Some r \<and> ok r)
   \<and> apply_unified_diff 4300 test_old (generate_unified_diff test_difflib test_old test_new)
     = Some \<lparr> ok = False, diff = generate_unified_diff test_difflib test_old test_new,
         new_text = None, error = Some MalformedEmptyLine \<rparr>
   \<and> generate_unified_diff test_difflib test_old test_new
     = ''--- a/code.py'' @ [LF] @ ''+++ b/code.py'' @ [LF] @ ''@@ -1,2 +1,2 @@'' @ [LF]
       @ ''-def f():'' @ [LF, LF] @ ''-    return 1'' @ [LF, LF]
       @ ''+def f(x):'' @ [LF, LF] @ ''+    return x'' @ [LF, LF]"
proof -
  have m: "''-def f():'' @ [LF] \<in> set (test_difflib (py_splitlines True test_old)
       (py_splitlines True test_new) ''a/code.py'' ''b/code.py'')"
    by (simp add: test_difflib_def)
  have n: "''-def f():'' @ [LF] \<noteq> []" "last (''-def f():'' @ [LF]) = LF" by simp_all
  from generated_diff_refused [OF m n test_generated_not_blank, of 4300 test_old]
    m n test_generated_not_blank test_roundtrip_result
  show ?thesis by blast
qed

section \<open>Properties of the write tokens\<close>

lemma set_rstrip_eq: "set (rstrip_eq s) \<subseteq> set s"
  by (auto simp: rstrip_eq_def dest: set_dropWhileD)

lemma split_once_append:
  "c \<notin> set a \<Longrightarrow> split_once c (a @ c # b) = (a, b)"
  by (induction a) (auto simp add: split_once_def)

text \<open>
  C1. For a library that keeps its contract, verifying a minted token gives a result
  that depends on the request as follows: the first bound field that differs (operation,
  required tier, filename, digest of the base text, digest of the diff text, in this
  order) gives its own reason; with all five equal, a clock reading after
  \<open>issued_at + ttl\<close> gives \<open>expired\<close>, and any reading up to it verifies. So the token
  verifies exactly when the five fields match and the clock reading is at most
  \<open>expires_at\<close>. Clock readings are the whole seconds \<open>int(time.time())\<close> returns.
\<close>

theorem minted_token_verifies_iff_bound:
  assumes "lib_ok L"
  shows "verify_write_token L secret now'
           (fst (issue_write_token L secret ttl_cfg now nonce op_name required filename
                   base_code diff_text))
           op_name' required' filename' base_code' diff_text'
         = Some (if op_name' \<noteq> op_name then (False, Some ''bad_op'')
                 else if required' \<noteq> required then (False, Some ''wrong_unlock'')
                 else if filename' \<noteq> filename then (False, Some ''wrong_filename'')
                 else if sha256_text L base_code' \<noteq> sha256_text L base_code
                   then (False, Some ''wrong_base'')
                 else if sha256_text L diff_text' \<noteq> sha256_text L diff_text
                   then (False, Some ''wrong_diff'')
                 else if now' > now + snd (issue_write_token L secret ttl_cfg now nonce op_name
                                             required filename base_code diff_text)
                   then (False, Some ''expired'')
                 else (True, None))
    \<and> (verify_write_token L secret now'
           (fst (issue_write_token L secret ttl_cfg now nonce op_name required filename
                   base_code diff_text))
           op_name' required' filename' base_code' diff_text' = Some (True, None))
        = (op_name' = op_name \<and> required' = required \<and> filename' = filename
           \<and> sha256_text L base_code' = sha256_text L base_code
           \<and> sha256_text L diff_text' = sha256_text L diff_text
           \<and> now' \<le> now + snd (issue_write_token L secret ttl_cfg now nonce op_name
                                             required filename base_code diff_text))"
proof -
  define ttl where "ttl = (case ttl_cfg of None \<Rightarrow> (120::int) | Some t \<Rightarrow> t)"
  define kvs where
    "kvs = token_payload L ttl now nonce op_name required filename base_code diff_text"
  define raw where "raw = json_dumps L (JObj kvs)"
  define p64 where "p64 = rstrip_eq (b64_encode L raw)"
  define sg where "sg = hmac_sha256 L secret p64"
  define s64 where "s64 = rstrip_eq (b64_encode L sg)"
  have tok: "issue_write_token L secret ttl_cfg now nonce op_name required filename
               base_code diff_text = (p64 @ CHR ''.'' # s64, ttl)"
    by (simp add: issue_write_token_def Let_def ttl_def kvs_def raw_def p64_def sg_def s64_def)
  from assms have
    b1: "\<And>x. b64url_decode L (rstrip_eq (b64_encode L x)) = Some x"
    and b2: "\<And>x. x \<noteq> [] \<Longrightarrow> rstrip_eq (b64_encode L x) \<noteq> []"
    and b3: "\<And>x. CHR ''.'' \<notin> set (b64_encode L x)"
    and h: "\<And>k m. hmac_sha256 L k m \<noteq> []"
    and j1: "\<And>j. json_dumps L j \<noteq> []"
    and j2: "\<And>kvs. list_all (\<lambda>kv. scalar (snd kv)) kvs \<Longrightarrow>
           \<exists>kvs'. json_loads L (json_dumps L (JObj kvs)) = Some (JObj kvs')
                    \<and> map_of kvs' = map_of kvs"
    by (simp_all add: lib_ok_def)
  have nd: "CHR ''.'' \<notin> set p64"
    using b3 [of raw] set_rstrip_eq [of "b64_encode L raw"] by (auto simp: p64_def)
  have sp: "split_once CHR ''.'' (p64 @ CHR ''.'' # s64) = (p64, s64)"
    by (rule split_once_append [OF nd])
  have pne: "p64 \<noteq> []" unfolding p64_def by (rule b2) (simp add: raw_def j1)
  have sne: "s64 \<noteq> []" unfolding s64_def by (rule b2) (simp add: sg_def h)
  have dp: "b64url_decode L p64 = Some raw" by (simp add: p64_def b1)
  have ds: "b64url_decode L s64 = Some sg" by (simp add: s64_def b1)
  have "list_all (\<lambda>kv. scalar (snd kv)) kvs"
    by (simp add: kvs_def token_payload_def scalar_def)
  from j2 [OF this] obtain kvs' where
    jl: "json_loads L raw = Some (JObj kvs')" and mo: "map_of kvs' = map_of kvs"
    by (auto simp: raw_def)
  have lk: "dict_lookup kvs' k = dict_lookup kvs k" for k
    by (simp add: dict_lookup_def mo)
  have vals: "dict_lookup kvs ''v'' = JInt 1" "dict_lookup kvs ''op'' = JStr op_name"
    "dict_lookup kvs ''ru'' = JStr required" "dict_lookup kvs ''fn'' = JStr filename"
    "dict_lookup kvs ''base_hash'' = JStr (sha256_text L base_code)"
    "dict_lookup kvs ''diff_hash'' = JStr (sha256_text L diff_text)"
    "dict_lookup kvs ''exp'' = JInt (now + ttl)"
    by (simp_all add: kvs_def token_payload_def dict_lookup_def)
  have eq: "verify_write_token L secret now' (p64 @ CHR ''.'' # s64)
           op_name' required' filename' base_code' diff_text'
         = Some (if op_name' \<noteq> op_name then (False, Some ''bad_op'')
                 else if required' \<noteq> required then (False, Some ''wrong_unlock'')
                 else if filename' \<noteq> filename then (False, Some ''wrong_filename'')
                 else if sha256_text L base_code' \<noteq> sha256_text L base_code
                   then (False, Some ''wrong_base'')
                 else if sha256_text L diff_text' \<noteq> sha256_text L diff_text
                   then (False, Some ''wrong_diff'')
                 else if now' > now + ttl then (False, Some ''expired'')
                 else (True, None))"
    by (simp add: verify_write_token_def sp pne sne dp ds sg_def [symmetric] jl lk vals
        py_eq_int_def py_eq_str_def py_as_int_def)
  show ?thesis
    unfolding tok fst_conv snd_conv eq by auto
qed

lemma rstrip_eq_replicate_A: "rstrip_eq (replicate n CHR ''A'') = replicate n CHR ''A''"
  by (cases n) (simp_all add: rstrip_eq_def replicate_append_same [symmetric] del: replicate_Suc)

lemma toy_scalar_inv: "scalar v \<Longrightarrow> toy_jval (toy_scalar v) = v"
  by (cases v) (simp_all add: scalar_def toy_scalar_def toy_jval_def)

lemma toy_lib_ok: "lib_ok toy_lib"
proof -
  have rt: "map (\<lambda>kv. (fst kv, toy_jval (snd kv))) (map (\<lambda>kv. (fst kv, toy_scalar (snd kv))) kvs)
              = kvs" if "list_all (\<lambda>kv. scalar (snd kv)) kvs" for kvs
    using that by (induction kvs) (simp_all add: toy_scalar_inv)
  have "json_loads toy_lib (json_dumps toy_lib (JObj kvs)) = Some (JObj kvs)"
    if "list_all (\<lambda>kv. scalar (snd kv)) kvs" for kvs
    using rt [OF that] by (simp add: toy_lib_def toy_dumps_def toy_loads_def)
  moreover have enc: "rstrip_eq (b64_encode toy_lib x) = replicate (Suc (to_nat x)) CHR ''A''"
    for x :: string
    by (simp add: toy_lib_def rstrip_eq_replicate_A del: replicate_Suc)
  moreover have "b64url_decode toy_lib (replicate (Suc n) CHR ''A'') = Some (from_nat n)" for n
    by (simp add: toy_lib_def b64url_decode_def del: replicate_Suc)
  then have "b64url_decode toy_lib (rstrip_eq (b64_encode toy_lib x)) = Some x" for x
    by (simp only: enc from_nat_to_nat)
  moreover have "json_dumps toy_lib j \<noteq> []" for j
    by (cases j) (simp_all add: toy_lib_def toy_dumps_def)
  moreover have "CHR ''.'' \<notin> set (b64_encode toy_lib x)" for x
    by (simp add: toy_lib_def)
  moreover have "hmac_sha256 toy_lib k m \<noteq> []" for k m
    by (simp add: toy_lib_def)
  ultimately show ?thesis
    unfolding lib_ok_def by (intro conjI allI impI exI [of _ "kvs" for kvs]) simp_all
qed

text \<open>
  A token minted at second 100 with the default lifetime of 120 seconds verifies at
  second 220, is expired at second 221, and is refused for another filename.
\<close>

theorem minted_token_verifies_iff_bound_witness:
  "lib_ok toy_lib
   \<and> verify_write_token toy_lib ''k'' 220
        (fst (issue_write_token toy_lib ''k'' None 100 ''n'' ''edit_apply_unified_diff''
                ''minor_edits'' ''a.py'' ''old'' ''d''))
        ''edit_apply_unified_diff'' ''minor_edits'' ''a.py'' ''old'' ''d'' = Some (True, None)
   \<and> verify_write_token toy_lib ''k'' 221
        (fst (issue_write_token toy_lib ''k'' None 100 ''n'' ''edit_apply_unified_diff''
                ''minor_edits'' ''a.py'' ''old'' ''d''))
        ''edit_apply_unified_diff'' ''minor_edits'' ''a.py'' ''old'' ''d''
       = Some (False, Some ''expired'')
   \<and> verify_write_token toy_lib ''k'' 221
        (fst (issue_write_token toy_lib ''k'' None 100 ''n'' ''edit_apply_unified_diff''
                ''minor_edits'' ''a.py'' ''old'' ''d''))
        ''edit_apply_unified_diff'' ''minor_edits'' ''b.py'' ''old'' ''d''
       = Some (False, Some ''wrong_filename'')"
  using minted_token_verifies_iff_bound [OF toy_lib_ok, of "''k''" _ None 100 "''n''"
      "''edit_apply_unified_diff''" "''minor_edits''" "''a.py''" "''old''" "''d''"]
    toy_lib_ok
  by (simp add: issue_write_token_def Let_def)

section \<open>Properties of the /edit operation\<close>

lemma load_old_code_effects:
  "load_old_code E A rq = (effs, r) \<Longrightarrow> \<not> list_ex is_issue effs \<and> \<not> list_ex is_write effs"
  by (auto simp: load_old_code_def Let_def split: if_splits sum.splits option.splits)

lemma edit_apply_too_large:
  assumes "max_changes_for_unlock (app_patch_cfg A) (required_unlock (apply_report E A rq)) = Some mx"
    and "int (total_changes (diff_stats (or_empty (rq_diff rq)))) > mx"
  shows "edit_apply E A rq =
     [SendJson 403 (if allowed (apply_report E A rq)
        then too_large_response (request_filename rq) (diff_stats (or_empty (rq_diff rq)))
               (apply_report E A rq)
        else locked_response (apply_report E A rq))]"
  using assms by (simp add: edit_apply_def Let_def)

lemma edit_generate_with_too_large:
  assumes "max_changes_for_unlock (app_patch_cfg A)
             (required_unlock (generate_report E A rq old_code)) = Some mx"
    and "int (total_changes (diff_stats
           (generate_unified_diff (unified_diff E) old_code (or_empty (rq_new_code rq))))) > mx"
  shows "\<not> list_ex is_issue (edit_generate_with E A rq old_code)"
    and "\<not> list_ex is_write (edit_generate_with E A rq old_code)"
    and "\<not> list_ex is_success (edit_generate_with E A rq old_code)"
    and "generate_gates_pass E A rq old_code \<Longrightarrow>
         edit_generate_with E A rq old_code =
           [SendJson 403 (too_large_response (request_filename rq)
              (diff_stats (generate_unified_diff (unified_diff E) old_code
                 (or_empty (rq_new_code rq))))
              (generate_report E A rq old_code))]"
  using assms
  by (auto simp add: edit_generate_with_def Let_def generate_gates_pass_def failure_def
      locked_response_def too_large_response_def)

lemma strip_minor_edit: "py_strip ''minor_edit'' = ''minor_edit''"
  by code_simp

lemma strip_edit: "py_strip ''edit'' = ''edit''"
  by code_simp

lemma test_old_not_blank: "py_strip test_old \<noteq> []"
  by code_simp

lemma request_basics:
  "request_text generate_request = ''edit''"
  "request_text apply_request = ''edit''"
  "strip_or_none (rq_requested_action generate_request) = Some ''minor_edit''"
  "strip_or_none (rq_requested_action apply_request) = Some ''minor_edit''"
  "strip_or_none (rq_expected_intent generate_request) = None"
  "strip_or_none (rq_expected_intent apply_request) = None"
  "request_filename generate_request = ''output_script.py''"
  "request_filename apply_request = ''output_script.py''"
  by (simp_all add: request_text_def strip_or_none_def request_filename_def or_empty_def
      generate_request_def apply_request_def strip_edit strip_minor_edit Let_def)
     (simp_all add: py_strip_def)

lemma resolve_minor_edit:
  "resolve_required_unlock (demo_model\<lparr> recent_scores := rs, current_percent := cp, unlocked := ul \<rparr>)
     pred (Some ''minor_edit'') = (''minor_edit'', ''minor_edits'')"
  by (simp add: resolve_required_unlock_def demo_model_def model_init_def strip_minor_edit
      dict_get_def Let_def)

lemma demo_apply_report:
  "required_unlock (apply_report demo_env (demo_app unlocked_model cfg) apply_request) = ''minor_edits''"
  "allowed (apply_report demo_env (demo_app unlocked_model cfg) apply_request)"
  by (simp_all add: apply_report_def demo_app_def unlocked_model_def demo_progress
      request_basics evaluate_def resolve_minor_edit Let_def)
     (simp_all add: demo_model_def model_init_def py_slice_from_def mean_of_ones one_reaches
       compute_unlocks_def dict_get_def alist_get_def)

lemma demo_generate_report:
  "required_unlock (generate_report demo_env (demo_app unlocked_model cfg) generate_request test_old)
     = ''minor_edits''"
  "allowed (generate_report demo_env (demo_app unlocked_model cfg) generate_request test_old)"
  "code_eval (generate_report demo_env (demo_app unlocked_model cfg) generate_request test_old)
     = Some True"
  by (simp_all add: generate_report_def demo_app_def unlocked_model_def demo_progress
      request_basics evaluate_def resolve_minor_edit Let_def test_old_not_blank)
     (simp_all add: demo_model_def model_init_def py_slice_from_def mean_of_ones one_reaches
       compute_unlocks_def dict_get_def alist_get_def demo_env_def demo_scoring_def)

lemma good_diff_stats: "total_changes (diff_stats good_diff) = 4"
  by code_simp

lemma generated_diff_stats:
  "total_changes (diff_stats (generate_unified_diff test_difflib test_old test_new)) = 4"
  by code_simp

lemma handle_edit_apply:
  "rq_diff rq \<noteq> None \<Longrightarrow> rq_base_code rq \<noteq> None \<Longrightarrow> handle_edit E A rq = edit_apply E A rq"
  by (simp add: handle_edit_def)

lemma handle_edit_generate:
  "\<not> (rq_diff rq \<noteq> None \<and> rq_base_code rq \<noteq> None) \<Longrightarrow>
     handle_edit E A rq = edit_generate E A rq"
  by (auto simp add: handle_edit_def)

text \<open>
  C5. Let the ceiling of a tier be configured (an integer). In the patch-application
  flow, a request whose required tier is that tier and whose diff has more changes than
  the ceiling mints no token, writes nothing and gets no success response; when the tier
  is unlocked the whole effect of the request is the response 403 \<open>patch_too_large\<close>.
  In the patch-generation flow, the same holds for the diff generated from the old and
  the new code: no token, no write, no success, and when the earlier gates pass (size of
  the new code, something to compare, tier unlocked, code evaluation) the request ends
  with 403 \<open>patch_too_large\<close> right after the reads that loaded the old code.
\<close>

theorem patch_ceiling_enforced:
  assumes "max_changes_for_unlock (app_patch_cfg A) tier = Some mx"
  shows
    "(rq_diff rq \<noteq> None \<and> rq_base_code rq \<noteq> None
        \<and> required_unlock (apply_report E A rq) = tier
        \<and> int (total_changes (diff_stats (or_empty (rq_diff rq)))) > mx
      \<longrightarrow> \<not> list_ex is_issue (handle_edit E A rq)
          \<and> \<not> list_ex is_write (handle_edit E A rq)
          \<and> \<not> list_ex is_success (handle_edit E A rq)
          \<and> (allowed (apply_report E A rq) \<longrightarrow>
               handle_edit E A rq =
                 [SendJson 403 (too_large_response (request_filename rq)
                    (diff_stats (or_empty (rq_diff rq))) (apply_report E A rq))]))
     \<and> (\<not> (rq_diff rq \<noteq> None \<and> rq_base_code rq \<noteq> None)
        \<and> load_old_code E A rq = (effs, Some old_code)
        \<and> required_unlock (generate_report E A rq old_code) = tier
        \<and> int (total_changes (diff_stats
             (generate_unified_diff (unified_diff E) old_code (or_empty (rq_new_code rq))))) > mx
      \<longrightarrow> \<not> list_ex is_issue (handle_edit E A rq)
          \<and> \<not> list_ex is_write (handle_edit E A rq)
          \<and> \<not> list_ex is_success (handle_edit E A rq)
          \<and> (generate_gates_pass E A rq old_code \<longrightarrow>
               handle_edit E A rq =
                 effs @ [SendJson 403 (too_large_response (request_filename rq)
                    (diff_stats (generate_unified_diff (unified_diff E) old_code
                       (or_empty (rq_new_code rq))))
                    (generate_report E A rq old_code))]))"
proof (intro conjI impI)
  assume a: "rq_diff rq \<noteq> None \<and> rq_base_code rq \<noteq> None
        \<and> required_unlock (apply_report E A rq) = tier
        \<and> int (total_changes (diff_stats (or_empty (rq_diff rq)))) > mx"
  then have h: "handle_edit E A rq = edit_apply E A rq" by (simp add: handle_edit_apply)
  from a assms have
    m: "max_changes_for_unlock (app_patch_cfg A) (required_unlock (apply_report E A rq)) = Some mx"
    by simp
  from a have g: "int (total_changes (diff_stats (or_empty (rq_diff rq)))) > mx" by simp
  note e = edit_apply_too_large [OF m g]
  show "\<not> list_ex is_issue (handle_edit E A rq)" unfolding h e by simp
  show "\<not> list_ex is_write (handle_edit E A rq)" unfolding h e by simp
  show "\<not> list_ex is_success (handle_edit E A rq)"
    unfolding h e by (simp add: too_large_response_def locked_response_def failure_def)
  show "handle_edit E A rq =
      [SendJson 403 (too_large_response (request_filename rq)
         (diff_stats (or_empty (rq_diff rq))) (apply_report E A rq))]"
    if "allowed (apply_report E A rq)"
    unfolding h e using that by simp
next
  assume a: "\<not> (rq_diff rq \<noteq> None \<and> rq_base_code rq \<noteq> None)
        \<and> load_old_code E A rq = (effs, Some old_code)
        \<and> required_unlock (generate_report E A rq old_code) = tier
        \<and> int (total_changes (diff_stats
             (generate_unified_diff (unified_diff E) old_code (or_empty (rq_new_code rq))))) > mx"
  then have l: "load_old_code E A rq = (effs, Some old_code)" by simp
  have h: "handle_edit E A rq = effs @ edit_generate_with E A rq old_code"
    using a by (simp add: handle_edit_generate edit_generate_def)
  from a assms have
    m: "max_changes_for_unlock (app_patch_cfg A)
          (required_unlock (generate_report E A rq old_code)) = Some mx"
    by simp
  from a have g: "int (total_changes (diff_stats
       (generate_unified_diff (unified_diff E) old_code (or_empty (rq_new_code rq))))) > mx"
    by simp
  note w = edit_generate_with_too_large [OF m g]
  note r = load_old_code_effects [OF l]
  show "\<not> list_ex is_issue (handle_edit E A rq)" unfolding h using w(1) r by simp
  show "\<not> list_ex is_write (handle_edit E A rq)" unfolding h using w(2) r by simp
  have "\<not> list_ex is_success effs"
    using l by (auto simp: load_old_code_def Let_def split: if_splits sum.splits option.splits)
  then show "\<not> list_ex is_success (handle_edit E A rq)" unfolding h using w(3) by simp
  show "handle_edit E A rq =
      effs @ [SendJson 403 (too_large_response (request_filename rq)
         (diff_stats (generate_unified_diff (unified_diff E) old_code
            (or_empty (rq_new_code rq))))
         (generate_report E A rq old_code))]"
    if "generate_gates_pass E A rq old_code"
    unfolding h using w(4) [OF that] by simp
qed

text \<open>
  The ceiling of \<open>minor_edits\<close> is 1 and the tier is unlocked; the diff of the example
  texts has four changed lines, in the request that applies it and in the request that
  generates it.
\<close>

theorem patch_ceiling_enforced_witness:
  "max_changes_for_unlock (app_patch_cfg (demo_app unlocked_model demo_cfg)) ''minor_edits'' = Some 1
   \<and> handle_edit demo_env (demo_app unlocked_model demo_cfg) apply_request =
       [SendJson 403 (too_large_response ''output_script.py'' (diff_stats good_diff)
          (apply_report demo_env (demo_app unlocked_model demo_cfg) apply_request))]
   \<and> handle_edit demo_env (demo_app unlocked_model demo_cfg) generate_request =
       [SendJson 403 (too_large_response ''output_script.py''
          (diff_stats (generate_unified_diff test_difflib test_old test_new))
          (generate_report demo_env (demo_app unlocked_model demo_cfg) generate_request test_old))]"
proof -
  let ?A = "demo_app unlocked_model demo_cfg"
  have c: "max_changes_for_unlock (app_patch_cfg ?A) ''minor_edits'' = Some 1"
    by (simp add: max_changes_for_unlock_def demo_app_def demo_cfg_def)
  have l: "load_old_code demo_env ?A generate_request = ([], Some test_old)"
    using test_old_not_blank
    by (auto simp add: load_old_code_def generate_request_def or_empty_def Let_def py_strip_def)
  have gp: "generate_gates_pass demo_env ?A generate_request test_old"
    using test_old_not_blank
    by (auto simp add: generate_gates_pass_def demo_generate_report)
       (auto simp add: demo_app_def demo_cfg_def generate_request_def or_empty_def test_new_def)
  have u: "unified_diff demo_env = test_difflib" by (simp add: demo_env_def)
  have rq: "rq_diff apply_request = Some good_diff" "rq_base_code apply_request = Some test_old"
    "rq_diff generate_request = None" "or_empty (rq_new_code generate_request) = test_new"
    "or_empty (Some good_diff) = good_diff"
    by (simp_all add: apply_request_def generate_request_def or_empty_def)
  from patch_ceiling_enforced [OF c, of apply_request demo_env "[]" test_old]
    patch_ceiling_enforced [OF c, of generate_request demo_env "[]" test_old]
  show ?thesis
    using c l gp
    by (simp add: rq u demo_apply_report demo_generate_report good_diff_stats
        generated_diff_stats request_basics)
qed

lemma demo_locked_report:
  "\<not> allowed (apply_report E (demo_app demo_model cfg) apply_request)"
  "\<not> allowed (generate_report E (demo_app demo_model cfg) generate_request old_code)"
  by (simp_all add: apply_report_def generate_report_def demo_app_def evaluate_allowed
      request_basics history_percent_empty demo_model_def model_init_def
      alist_get_compute_unlocks tier_threshold_def dict_get_def zero_below
      split: option.splits)

text \<open>
  C6, at a request of the patch-application flow that is denied because its tier is
  locked (no score recorded yet): the only effect is the response 403, and nothing is
  written to the audit store. The patch-generation flow logs the same denial with
  \<open>allowed = False\<close> before it responds.
\<close>

theorem apply_flow_locked_denial_not_logged:
  "\<not> allowed (apply_report E (demo_app demo_model cfg) apply_request)
   \<and> handle_edit E (demo_app demo_model cfg) apply_request =
       [SendJson 403 (locked_response (apply_report E (demo_app demo_model cfg) apply_request))]
   \<and> \<not> list_ex is_log (handle_edit E (demo_app demo_model cfg) apply_request)
   \<and> handle_edit E (demo_app demo_model demo_cfg) generate_request =
       [LogPatch \<lparr> pe_requested_action = ''minor_edit'', pe_required_unlock = ''minor_edits'',
           pe_allowed = False, pe_old_hash = sha256_text (lib E) test_old,
           pe_new_hash = sha256_text (lib E) test_old, pe_diff_text = [],
           pe_meta = [(''op'', MStr ''generate''), (''blocked'', MBool True)] \<rparr>,
        SendJson 403 (locked_response
          (generate_report E (demo_app demo_model demo_cfg) generate_request test_old))]"
proof -
  have a: "handle_edit E (demo_app demo_model cfg) apply_request =
       [SendJson 403 (locked_response (apply_report E (demo_app demo_model cfg) apply_request))]"
    using demo_locked_report(1) [of E cfg]
    by (simp add: handle_edit_def edit_apply_def Let_def apply_request_def)
  have l: "load_old_code E (demo_app demo_model demo_cfg) generate_request = ([], Some test_old)"
    using test_old_not_blank
    by (auto simp add: load_old_code_def generate_request_def or_empty_def Let_def py_strip_def)
  have r: "requested_action (generate_report E (demo_app demo_model demo_cfg) generate_request test_old)
             = ''minor_edit''"
    "required_unlock (generate_report E (demo_app demo_model demo_cfg) generate_request test_old)
             = ''minor_edits''"
    by (simp_all add: generate_report_def evaluate_def demo_app_def request_basics Let_def
        split: prod.splits)
       (simp_all add: resolve_required_unlock_def demo_model_def model_init_def
         strip_minor_edit dict_get_def Let_def)
  have n: "length test_new \<le> 200000" by (simp add: test_new_def)
  have g: "handle_edit E (demo_app demo_model demo_cfg) generate_request =
       [LogPatch \<lparr> pe_requested_action = ''minor_edit'', pe_required_unlock = ''minor_edits'',
           pe_allowed = False, pe_old_hash = sha256_text (lib E) test_old,
           pe_new_hash = sha256_text (lib E) test_old, pe_diff_text = [],
           pe_meta = [(''op'', MStr ''generate''), (''blocked'', MBool True)] \<rparr>,
        SendJson 403 (locked_response
          (generate_report E (demo_app demo_model demo_cfg) generate_request test_old))]"
    using demo_locked_report(2) [of E demo_cfg test_old] test_old_not_blank n
    by (auto simp add: handle_edit_def edit_generate_def l edit_generate_with_def Let_def r)
       (auto simp add: generate_request_def demo_app_def demo_cfg_def or_empty_def py_strip_def)
  show ?thesis using a g demo_locked_report(1) [of E cfg] by simp
qed

lemma write_new_text_invalid:
  "isl (resolve_workspace_path E A filename) \<Longrightarrow>
     \<exists>msg. write_new_text E A filename new_code = ([], Some msg)"
  by (cases "resolve_workspace_path E A filename") (simp_all add: write_new_text_def)

lemma edit_apply_invalid_filename:
  assumes "isl (resolve_workspace_path E A (request_filename rq))"
  shows "\<not> list_ex is_write (edit_apply E A rq)"
    and "cfg_flag (write_to_file (app_patch_cfg A)) \<Longrightarrow> \<not> list_ex is_success (edit_apply E A rq)"
    and "cfg_flag (write_to_file (app_patch_cfg A)) \<Longrightarrow> edit_apply E A rq \<noteq> [Unhandled] \<Longrightarrow>
           list_ex is_failure (edit_apply E A rq)"
proof -
  obtain msg where w: "\<And>new_code.
      write_new_text E A (request_filename rq) new_code = ([], Some msg)"
    using assms by (cases "resolve_workspace_path E A (request_filename rq)")
      (simp_all add: write_new_text_def)
  show "\<not> list_ex is_write (edit_apply E A rq)"
    by (auto simp add: edit_apply_def Let_def w split: option.splits bool.splits)
  show "\<not> list_ex is_success (edit_apply E A rq)"
    if "cfg_flag (write_to_file (app_patch_cfg A))"
    using that
    by (auto simp add: edit_apply_def Let_def w failure_def locked_response_def
        too_large_response_def split: option.splits bool.splits)
  show "list_ex is_failure (edit_apply E A rq)"
    if "cfg_flag (write_to_file (app_patch_cfg A))" and "edit_apply E A rq \<noteq> [Unhandled]"
    using that
    by (auto simp add: edit_apply_def Let_def w failure_def locked_response_def
        too_large_response_def split: option.splits bool.splits if_splits)
qed

text \<open>
  C8, as the code has it. \<open>resolve_workspace_path\<close> raises for an absolute filename and
  for a filename whose resolution is not inside the workspace root; what it returns is the
  resolution of the filename under the root, and it is the root itself or a descendant of
  the root. In the patch-application flow a filename that fails the validation leads to no
  write; and when \<open>write_to_file\<close> is enabled, the request gets no success response, and
  whenever the handler answers it, the answer is an error response.
\<close>

theorem workspace_path_validated:
  "(path_is_absolute filename \<longrightarrow> isl (resolve_workspace_path E A filename))
   \<and> (\<forall>target. fs_resolve E (app_workspace_root A @ path_parts filename) = Some target
          \<and> \<not> is_relative_to target (app_workspace_root A)
        \<longrightarrow> isl (resolve_workspace_path E A filename))
   \<and> (\<forall>target. resolve_workspace_path E A filename = Inr target
        \<longrightarrow> is_relative_to target (app_workspace_root A)
            \<and> fs_resolve E (app_workspace_root A @ path_parts filename) = Some target)
   \<and> (rq_diff rq \<noteq> None \<and> rq_base_code rq \<noteq> None
        \<and> isl (resolve_workspace_path E A (request_filename rq))
      \<longrightarrow> \<not> list_ex is_write (handle_edit E A rq)
          \<and> (cfg_flag (write_to_file (app_patch_cfg A))
               \<longrightarrow> \<not> list_ex is_success (handle_edit E A rq)
                   \<and> (handle_edit E A rq \<noteq> [Unhandled]
                        \<longrightarrow> list_ex is_failure (handle_edit E A rq))))"
proof -
  have 1: "path_is_absolute filename \<longrightarrow> isl (resolve_workspace_path E A filename)"
    by (simp add: resolve_workspace_path_def)
  have 2: "\<forall>target. fs_resolve E (app_workspace_root A @ path_parts filename) = Some target
          \<and> \<not> is_relative_to target (app_workspace_root A)
        \<longrightarrow> isl (resolve_workspace_path E A filename)"
    by (auto simp add: resolve_workspace_path_def)
  have 3: "\<forall>target. resolve_workspace_path E A filename = Inr target
        \<longrightarrow> is_relative_to target (app_workspace_root A)
            \<and> fs_resolve E (app_workspace_root A @ path_parts filename) = Some target"
    by (auto simp add: resolve_workspace_path_def split: if_splits option.splits)
  have 4: "rq_diff rq \<noteq> None \<and> rq_base_code rq \<noteq> None
        \<and> isl (resolve_workspace_path E A (request_filename rq))
      \<longrightarrow> \<not> list_ex is_write (handle_edit E A rq)
          \<and> (cfg_flag (write_to_file (app_patch_cfg A))
               \<longrightarrow> \<not> list_ex is_success (handle_edit E A rq)
                   \<and> (handle_edit E A rq \<noteq> [Unhandled]
                        \<longrightarrow> list_ex is_failure (handle_edit E A rq)))"
    using edit_apply_invalid_filename [of E A rq]
    by (auto simp add: handle_edit_apply)
  from 1 2 3 4 show ?thesis by blast
qed

lemma escape_report:
  "apply_report E A (escape_request f) = apply_report E A apply_request"
  "apply_report E A long_number_request = apply_report E A apply_request"
  by (simp_all add: apply_report_def escape_request_def long_number_request_def
      request_text_def)

lemma escape_request_fields:
  "rq_diff (escape_request f) = Some good_diff"
  "rq_base_code (escape_request f) = Some test_old"
  "f \<noteq> [] \<Longrightarrow> request_filename (escape_request f) = f"
  "rq_diff long_number_request = Some (numbered_diff 4301)"
  "rq_base_code long_number_request = Some test_old"
  "request_filename long_number_request = ''/etc/passwd''"
  by (simp_all add: escape_request_def long_number_request_def apply_request_def
      request_filename_def or_empty_def)

lemma resolve_examples:
  "resolve_workspace_path demo_env (demo_app m cfg) ''/etc/passwd''
     = Inl ''absolute paths are not allowed''"
  "resolve_workspace_path demo_env (demo_app m cfg) ''../outside.py''
     = Inl ''path escapes workspace''"
  "resolve_workspace_path demo_env (demo_app m cfg) ''src/a.py''
     = Inr [''srv'', ''workspace'', ''src'', ''a.py'']"
  "resolve_workspace_path demo_env (demo_app m cfg) ''.'' = Inr [''srv'', ''workspace'']"
  by (simp_all add: resolve_workspace_path_def path_is_absolute_def starts_with_def
      demo_env_def demo_app_def path_parts_def is_relative_to_def)

lemma escape_apply_effects:
  "handle_edit demo_env (demo_app unlocked_model (open_cfg wtf)) (escape_request ''/etc/passwd'')
     = (if cfg_flag wtf
        then [LogPatch \<lparr> pe_requested_action = ''minor_edit'', pe_required_unlock = ''minor_edits'',
                 pe_allowed = True, pe_old_hash = test_old, pe_new_hash = test_new,
                 pe_diff_text = good_diff, pe_meta = [(''op'', MStr ''apply'')] \<rparr>,
              SendJson 400 ((failure ''file_write_failed'')
                 \<lparr> rs_filename := Some ''/etc/passwd'' \<rparr>)]
        else [LogPatch \<lparr> pe_requested_action = ''minor_edit'', pe_required_unlock = ''minor_edits'',
                 pe_allowed = True, pe_old_hash = test_old, pe_new_hash = test_new,
                 pe_diff_text = good_diff, pe_meta = [(''op'', MStr ''apply'')] \<rparr>,
              SendJson 200 (success
                 \<lparr> rs_applied := True, rs_new_code := Some test_new,
                   rs_filename := Some ''/etc/passwd'', rs_stats := Some (diff_stats good_diff),
                   rs_report := Some (apply_report demo_env
                      (demo_app unlocked_model (open_cfg wtf)) apply_request) \<rparr>)])"
proof -
  let ?A = "demo_app unlocked_model (open_cfg wtf)"
  have ra: "requested_action (apply_report demo_env ?A apply_request) = ''minor_edit''"
    by (simp add: apply_report_def demo_app_def unlocked_model_def demo_progress
        request_basics evaluate_def resolve_minor_edit Let_def)
  have cfg: "max_changes_for_unlock (app_patch_cfg ?A) t = None"
    "cfg_flag (require_write_token (app_patch_cfg ?A)) = False"
    "write_to_file (app_patch_cfg ?A) = wtf" for t
    by (simp_all add: demo_app_def open_cfg_def max_changes_for_unlock_def cfg_flag_def)
  have sh: "sha256_text (lib demo_env) s = s" for s
    by (simp add: sha256_text_def demo_env_def toy_lib_def)
  have oe: "or_empty (Some x) = x" for x by (simp add: or_empty_def)
  have lm: "int_max_str_digits demo_env = 4300" by (simp add: demo_env_def)
  show ?thesis
    by (simp add: handle_edit_def edit_apply_def Let_def escape_request_fields escape_report
        demo_apply_report ra cfg sh oe lm good_diff_applies write_new_text_def resolve_examples)
qed

lemma long_number_effects:
  "handle_edit demo_env (demo_app unlocked_model (open_cfg wtf)) long_number_request
     = [Unhandled]"
proof -
  let ?A = "demo_app unlocked_model (open_cfg wtf)"
  have cfg: "max_changes_for_unlock (app_patch_cfg ?A) t = None"
    "cfg_flag (require_write_token (app_patch_cfg ?A)) = False" for t
    by (simp_all add: demo_app_def open_cfg_def max_changes_for_unlock_def cfg_flag_def)
  have oe: "or_empty (Some x) = x" for x by (simp add: or_empty_def)
  have lm: "int_max_str_digits demo_env = 4300" by (simp add: demo_env_def)
  have r: "apply_unified_diff 4300 test_old (numbered_diff 4301) = None"
    by (rule numbered_diff_raises) simp_all
  show ?thesis
    by (simp add: handle_edit_def edit_apply_def Let_def escape_request_fields escape_report
        demo_apply_report cfg oe lm r)
qed

text \<open>
  In the example deployment \<open>src/a.py\<close> resolves inside the workspace, \<open>../outside.py\<close>
  and \<open>/etc/passwd\<close> are refused, and applying a patch to \<open>/etc/passwd\<close> with
  \<open>write_to_file\<close> enabled ends in an error response without a write.
\<close>

theorem workspace_path_validated_witness:
  "resolve_workspace_path demo_env (demo_app unlocked_model (open_cfg None)) ''src/a.py''
     = Inr [''srv'', ''workspace'', ''src'', ''a.py'']
   \<and> is_relative_to [''srv'', ''workspace'', ''src'', ''a.py'']
        (app_workspace_root (demo_app unlocked_model (open_cfg None)))
   \<and> isl (resolve_workspace_path demo_env (demo_app unlocked_model (open_cfg None))
             ''../outside.py'')
   \<and> path_is_absolute ''/etc/passwd''
   \<and> isl (resolve_workspace_path demo_env (demo_app unlocked_model (open_cfg None))
             ''/etc/passwd'')
   \<and> cfg_flag (write_to_file (app_patch_cfg (demo_app unlocked_model (open_cfg None))))
   \<and> handle_edit demo_env (demo_app unlocked_model (open_cfg None))
        (escape_request ''/etc/passwd'') \<noteq> [Unhandled]
   \<and> \<not> list_ex is_write (handle_edit demo_env (demo_app unlocked_model (open_cfg None))
                            (escape_request ''/etc/passwd''))
   \<and> \<not> list_ex is_success (handle_edit demo_env (demo_app unlocked_model (open_cfg None))
                            (escape_request ''/etc/passwd''))
   \<and> list_ex is_failure (handle_edit demo_env (demo_app unlocked_model (open_cfg None))
                            (escape_request ''/etc/passwd''))"
proof -
  let ?A = "demo_app unlocked_model (open_cfg None)"
  have f: "cfg_flag (write_to_file (app_patch_cfg ?A))"
    by (simp add: demo_app_def open_cfg_def cfg_flag_def)
  have u: "handle_edit demo_env ?A (escape_request ''/etc/passwd'') \<noteq> [Unhandled]"
    by (simp add: escape_apply_effects cfg_flag_def)
  have p: "path_is_absolute ''/etc/passwd''" by (simp add: path_is_absolute_def starts_with_def)
  from workspace_path_validated [of "''src/a.py''" demo_env ?A "escape_request ''/etc/passwd''"]
    workspace_path_validated [of "''/etc/passwd''" demo_env ?A "escape_request ''/etc/passwd''"]
    f u p
  show ?thesis
    by (simp add: resolve_examples escape_request_fields)
qed

text \<open>
  Three inputs at which the claim fails. With \<open>write_to_file\<close> disabled the filename is
  never validated: the request for \<open>/etc/passwd\<close> is answered with success (and nothing is
  written). The filename \<open>.\<close> passes the validation and resolves to the workspace root
  itself, which is no descendant of the root. And with \<open>write_to_file\<close> enabled, the
  request for \<open>/etc/passwd\<close> whose diff has a header number of 4301 digits gets no
  response at all, as \<open>apply_unified_diff\<close> raises before the filename is looked at.
\<close>

theorem unvalidated_filename_counterexample:
  "isl (resolve_workspace_path demo_env (demo_app unlocked_model (open_cfg (Some False)))
          (request_filename (escape_request ''/etc/passwd'')))
   \<and> rq_diff (escape_request ''/etc/passwd'') \<noteq> None
   \<and> rq_base_code (escape_request ''/etc/passwd'') \<noteq> None
   \<and> list_ex is_success (handle_edit demo_env (demo_app unlocked_model (open_cfg (Some False)))
                           (escape_request ''/etc/passwd''))
   \<and> \<not> list_ex is_failure (handle_edit demo_env (demo_app unlocked_model (open_cfg (Some False)))
                           (escape_request ''/etc/passwd''))
   \<and> resolve_workspace_path demo_env (demo_app unlocked_model (open_cfg None)) ''.''
       = Inr (app_workspace_root (demo_app unlocked_model (open_cfg None)))
   \<and> isl (resolve_workspace_path demo_env (demo_app unlocked_model (open_cfg None))
          (request_filename long_number_request))
   \<and> rq_diff long_number_request \<noteq> None
   \<and> rq_base_code long_number_request \<noteq> None
   \<and> cfg_flag (write_to_file (app_patch_cfg (demo_app unlocked_model (open_cfg None))))
   \<and> handle_edit demo_env (demo_app unlocked_model (open_cfg None)) long_number_request
       = [Unhandled]
   \<and> \<not> list_ex is_failure
         (handle_edit demo_env (demo_app unlocked_model (open_cfg None)) long_number_request)"
  by (simp add: escape_apply_effects long_number_effects cfg_flag_def escape_request_fields
      resolve_examples success_def failure_def)
     (simp add: demo_app_def open_cfg_def)

end
